theory Spec2Isabelle
  imports Complex_Main
begin

text \<open>
  A model of the solver of \<^verbatim>\<open>app.js\<close> (the thermodynamic functions, the eight
  pair solvers and \<^verbatim>\<open>solveState\<close>) and the proofs of the claims made about it.
  Definitions keep the names of the source; a parameter whose source name is also a
  key of the state object is written in lower case (\<open>tdb\<close>, \<open>w\<close>, \<open>rh\<close>, ...),
  since the keys are the field names of the record of states.
\<close>

section \<open>JavaScript numbers\<close>

text \<open>
  A JavaScript number is an IEEE-754 double. The model keeps the three special values
  that steer the control flow of \<^verbatim>\<open>app.js\<close> (\<^verbatim>\<open>Infinity\<close>, \<^verbatim>\<open>-Infinity\<close>,
  \<^verbatim>\<open>NaN\<close>) and idealises the finite doubles as real numbers: rounding, overflow
  of a finite result to an infinity and underflow are not modelled, a decimal literal
  of the source stands for the rational it denotes, and the two zeros are one (a
  division of a non-zero finite number by zero takes the sign of the numerator, as a
  division by \<^verbatim>\<open>+0\<close> does).
\<close>

datatype jsnum = Fin real | PInf | NInf | NaN

fun js_neg :: "jsnum \<Rightarrow> jsnum" where
  "js_neg (Fin x) = Fin (- x)"
| "js_neg PInf = NInf"
| "js_neg NInf = PInf"
| "js_neg NaN = NaN"

fun js_add :: "jsnum \<Rightarrow> jsnum \<Rightarrow> jsnum" where
  "js_add NaN _ = NaN"
| "js_add _ NaN = NaN"
| "js_add (Fin x) (Fin y) = Fin (x + y)"
| "js_add (Fin x) PInf = PInf"
| "js_add (Fin x) NInf = NInf"
| "js_add PInf (Fin y) = PInf"
| "js_add NInf (Fin y) = NInf"
| "js_add PInf PInf = PInf"
| "js_add NInf NInf = NInf"
| "js_add PInf NInf = NaN"
| "js_add NInf PInf = NaN"

definition js_sub :: "jsnum \<Rightarrow> jsnum \<Rightarrow> jsnum" where
  "js_sub a b = js_add a (js_neg b)"

text \<open>The sign of a product or quotient with an infinite operand.\<close>

definition signed_inf :: "bool \<Rightarrow> jsnum" where
  "signed_inf positive = (if positive then PInf else NInf)"

fun js_mul :: "jsnum \<Rightarrow> jsnum \<Rightarrow> jsnum" where
  "js_mul NaN _ = NaN"
| "js_mul _ NaN = NaN"
| "js_mul (Fin x) (Fin y) = Fin (x * y)"
| "js_mul (Fin x) PInf = (if x = 0 then NaN else signed_inf (0 < x))"
| "js_mul (Fin x) NInf = (if x = 0 then NaN else signed_inf (x < 0))"
| "js_mul PInf (Fin y) = (if y = 0 then NaN else signed_inf (0 < y))"
| "js_mul NInf (Fin y) = (if y = 0 then NaN else signed_inf (y < 0))"
| "js_mul PInf PInf = PInf"
| "js_mul NInf NInf = PInf"
| "js_mul PInf NInf = NInf"
| "js_mul NInf PInf = NInf"

fun js_div :: "jsnum \<Rightarrow> jsnum \<Rightarrow> jsnum" where
  "js_div NaN _ = NaN"
| "js_div _ NaN = NaN"
| "js_div (Fin x) (Fin y) =
     (if y = 0 then (if x = 0 then NaN else signed_inf (0 < x)) else Fin (x / y))"
| "js_div (Fin x) PInf = Fin 0"
| "js_div (Fin x) NInf = Fin 0"
| "js_div PInf (Fin y) = signed_inf (0 \<le> y)"
| "js_div NInf (Fin y) = signed_inf (y < 0)"
| "js_div PInf PInf = NaN"
| "js_div PInf NInf = NaN"
| "js_div NInf PInf = NaN"
| "js_div NInf NInf = NaN"

text \<open>Comparisons: every comparison with \<^verbatim>\<open>NaN\<close> is false.\<close>

fun js_lt :: "jsnum \<Rightarrow> jsnum \<Rightarrow> bool" where
  "js_lt NaN _ = False"
| "js_lt _ NaN = False"
| "js_lt (Fin x) (Fin y) = (x < y)"
| "js_lt (Fin x) PInf = True"
| "js_lt (Fin x) NInf = False"
| "js_lt PInf _ = False"
| "js_lt NInf (Fin y) = True"
| "js_lt NInf PInf = True"
| "js_lt NInf NInf = False"

definition js_gt :: "jsnum \<Rightarrow> jsnum \<Rightarrow> bool" where
  "js_gt a b = js_lt b a"

fun js_ge :: "jsnum \<Rightarrow> jsnum \<Rightarrow> bool" where
  "js_ge NaN _ = False"
| "js_ge _ NaN = False"
| "js_ge (Fin x) (Fin y) = (y \<le> x)"
| "js_ge PInf _ = True"
| "js_ge _ NInf = True"
| "js_ge (Fin x) PInf = False"
| "js_ge NInf (Fin y) = False"
| "js_ge NInf PInf = False"

text \<open>\<^verbatim>\<open>Math.exp\<close>, \<^verbatim>\<open>Math.log\<close>, \<^verbatim>\<open>Math.max\<close> and \<^verbatim>\<open>Math.min\<close>.\<close>

fun js_exp :: "jsnum \<Rightarrow> jsnum" where
  "js_exp (Fin x) = Fin (exp x)"
| "js_exp PInf = PInf"
| "js_exp NInf = Fin 0"
| "js_exp NaN = NaN"

fun js_log :: "jsnum \<Rightarrow> jsnum" where
  "js_log (Fin x) = (if x < 0 then NaN else if x = 0 then NInf else Fin (ln x))"
| "js_log PInf = PInf"
| "js_log NInf = NaN"
| "js_log NaN = NaN"

fun js_max :: "jsnum \<Rightarrow> jsnum \<Rightarrow> jsnum" where
  "js_max NaN _ = NaN"
| "js_max _ NaN = NaN"
| "js_max a b = (if js_lt a b then b else a)"

fun js_min :: "jsnum \<Rightarrow> jsnum \<Rightarrow> jsnum" where
  "js_min NaN _ = NaN"
| "js_min _ NaN = NaN"
| "js_min a b = (if js_lt b a then b else a)"

section \<open>Constants and thermodynamic functions\<close>

text \<open>The entries of \<^verbatim>\<open>CONSTANTS\<close> that the solver reads.\<close>

definition R_DA :: jsnum where "R_DA = Fin 287.058"
definition C_DA :: jsnum where "C_DA = Fin 1.006"
definition H_FG_0 :: jsnum where "H_FG_0 = Fin 2501"
definition H_FG_T :: jsnum where "H_FG_T = Fin 1.86"
definition K_W :: jsnum where "K_W = Fin 0.622"

definition saturationVaporPressure :: "jsnum \<Rightarrow> jsnum" where
  "saturationVaporPressure t =
     (let a = Fin 17.27; b = Fin 237.7; p_ref = Fin 611.2;
          exponent = js_div (js_mul a t) (js_add b t)
      in js_mul p_ref (js_exp exponent))"

definition temperatureFromSaturationPressure :: "jsnum \<Rightarrow> jsnum" where
  "temperatureFromSaturationPressure p_sat =
     (let a = Fin 17.27; b = Fin 237.7; p_ref = Fin 611.2;
          ratio = js_log (js_div p_sat p_ref)
      in js_div (js_mul b ratio) (js_sub a ratio))"

definition humidityRatioFromVaporPressure :: "jsnum \<Rightarrow> jsnum \<Rightarrow> jsnum" where
  "humidityRatioFromVaporPressure pv p_total =
     (if js_ge pv p_total then PInf
      else js_div (js_mul K_W pv) (js_sub p_total pv))"

definition vaporPressureFromHumidityRatio :: "jsnum \<Rightarrow> jsnum \<Rightarrow> jsnum" where
  "vaporPressureFromHumidityRatio w p_total = js_div (js_mul p_total w) (js_add K_W w)"

definition relativeHumidity :: "jsnum \<Rightarrow> jsnum \<Rightarrow> jsnum" where
  "relativeHumidity pv t =
     (let p_sat = saturationVaporPressure t in js_div (js_mul (Fin 100) pv) p_sat)"

definition saturationHumidityRatio :: "jsnum \<Rightarrow> jsnum \<Rightarrow> jsnum" where
  "saturationHumidityRatio t p_total =
     (let p_sat = saturationVaporPressure t in humidityRatioFromVaporPressure p_sat p_total)"

definition enthalpy :: "jsnum \<Rightarrow> jsnum \<Rightarrow> jsnum" where
  "enthalpy t w =
     (let h_fg = js_add H_FG_0 (js_mul H_FG_T t) in js_add (js_mul C_DA t) (js_mul w h_fg))"

definition density :: "jsnum \<Rightarrow> jsnum \<Rightarrow> jsnum \<Rightarrow> jsnum" where
  "density tdb w p_total =
     (let T_K = js_add tdb (Fin 273.15);
          R_mix = js_div (js_mul R_DA (js_add (Fin 1) (js_mul (Fin 1.6078) w))) (js_add (Fin 1) w)
      in js_div p_total (js_mul R_mix T_K))"

definition volumetricFlow :: "jsnum \<Rightarrow> jsnum \<Rightarrow> jsnum" where
  "volumetricFlow m rho_v = js_mul (js_div m rho_v) (Fin 3.6)"

section \<open>Bisection\<close>

text \<open>
  The source inlines the same loop four times (in \<^verbatim>\<open>wetBulbTemperature\<close>,
  \<^verbatim>\<open>solveFromTdbH\<close>, \<^verbatim>\<open>solveFromTdbTwb\<close> and \<^verbatim>\<open>solveFromWH\<close>):
  \<^verbatim>\<open>
  while (hi - lo > tolerance && iterations < maxIterations) {
      const mid = (lo + hi) / 2;
      const h_mid = f(mid);
      if (h_mid < h_target) { lo = mid; } else { hi = mid; }
      iterations++;
  }
  \<close>
  The four copies differ in the function evaluated at the midpoint, the target, the
  tolerance, the cap and the initial bracket, which are the parameters of \<open>bisect\<close>.
  It returns the final bracket and the number of iterations run.
\<close>

function bisect ::
  "(jsnum \<Rightarrow> jsnum) \<Rightarrow> jsnum \<Rightarrow> jsnum \<Rightarrow> nat \<Rightarrow> jsnum \<Rightarrow> jsnum \<Rightarrow> nat \<Rightarrow> jsnum \<times> jsnum \<times> nat"
where
  "bisect f h_target tolerance maxIterations lo hi iterations =
     (if js_gt (js_sub hi lo) tolerance \<and> iterations < maxIterations then
        (let mid = js_div (js_add lo hi) (Fin 2);
             h_mid = f mid
         in if js_lt h_mid h_target
            then bisect f h_target tolerance maxIterations mid hi (iterations + 1)
            else bisect f h_target tolerance maxIterations lo mid (iterations + 1))
      else (lo, hi, iterations))"
  by pat_completeness auto
termination
  by (relation "measure (\<lambda>(f, h_target, tolerance, maxIterations, lo, hi, iterations).
        maxIterations - iterations)") auto

declare bisect.simps [simp del]

definition midpoint_of :: "jsnum \<times> jsnum \<times> nat \<Rightarrow> jsnum" where
  "midpoint_of r = (case r of (lo, hi, iterations) \<Rightarrow> js_div (js_add lo hi) (Fin 2))"

definition iterations_of :: "jsnum \<times> jsnum \<times> nat \<Rightarrow> nat" where
  "iterations_of r = (case r of (lo, hi, iterations) \<Rightarrow> iterations)"

text \<open>The loop of \<^verbatim>\<open>wetBulbTemperature\<close> and the function itself.\<close>

definition wetBulb_loop :: "jsnum \<Rightarrow> jsnum \<Rightarrow> jsnum \<Rightarrow> jsnum \<times> jsnum \<times> nat" where
  "wetBulb_loop tdb w p_total =
     (let h_target = enthalpy tdb w;
          p_v = vaporPressureFromHumidityRatio w p_total;
          T_dew_v = temperatureFromSaturationPressure p_v;
          T_low = js_max (js_sub T_dew_v (Fin 5)) (Fin (- 50));
          T_high = tdb
      in bisect (\<lambda>T_mid. enthalpy T_mid (saturationHumidityRatio T_mid p_total))
           h_target (Fin 0.001) 50 T_low T_high 0)"

definition wetBulbTemperature :: "jsnum \<Rightarrow> jsnum \<Rightarrow> jsnum \<Rightarrow> jsnum" where
  "wetBulbTemperature tdb w p_total = midpoint_of (wetBulb_loop tdb w p_total)"

section \<open>States and errors\<close>

text \<open>
  The object a pair solver returns, and the state \<^verbatim>\<open>solveState\<close> returns, which
  adds the two flow fields. The field names are the keys of the JavaScript objects.
\<close>

record psy_state =
  Tdb :: jsnum
  W :: jsnum
  RH :: jsnum
  h :: jsnum
  Twb :: jsnum
  T_dew :: jsnum
  Pv :: jsnum
  rho :: jsnum
  P_total :: jsnum

record full_state = psy_state +
  m_da :: jsnum
  V_dot :: jsnum

text \<open>One constructor for each \<^verbatim>\<open>throw new Error(...)\<close> of the solver, in source order.\<close>

datatype error =
    MissingInput            \<comment> \<open>"Selectionnez deux variables et entrez les valeurs."\<close>
  | SameVariable            \<comment> \<open>"Les deux variables independantes doivent etre differentes."\<close>
  | UnsupportedPair string string  \<comment> \<open>"Paire non implementee: var1 + var2"\<close>
  | UnsolvableState         \<comment> \<open>"Impossible de resoudre cet etat (etat physiquement impossible)."\<close>
  | RHOutOfRange            \<comment> \<open>"L'humidite relative doit etre entre 0 et 100%."\<close>
  | ImpossibleState         \<comment> \<open>"Etat thermodynamiquement impossible."\<close>
  | NegativeHumidityRatio   \<comment> \<open>"Le ratio d'humidite ne peut pas etre negatif."\<close>
  | Supersaturated          \<comment> \<open>"Etat sursature (non physique)."\<close>
  | TwbAboveTdb             \<comment> \<open>"La temperature humide ne peut pas depasser la temperature seche."\<close>
  | TdpAboveTdb             \<comment> \<open>"La temperature de rosee ne peut pas depasser la temperature seche."\<close>
  | SupersaturatedPv        \<comment> \<open>"Etat sursature (pression de vapeur trop elevee)."\<close>

section \<open>Pair solvers\<close>

definition solveFromTdbRH :: "jsnum \<Rightarrow> jsnum \<Rightarrow> jsnum \<Rightarrow> error + psy_state" where
  "solveFromTdbRH tdb rh p_total =
     (if js_lt rh (Fin 0) \<or> js_gt rh (Fin 100) then Inl RHOutOfRange
      else
        let p_sat = saturationVaporPressure tdb;
            pv = js_mul (js_div rh (Fin 100)) p_sat;
            w = humidityRatioFromVaporPressure pv p_total
        in if js_lt w (Fin 0) then Inl ImpossibleState
           else Inr \<lparr>Tdb = tdb, W = w, RH = rh, h = enthalpy tdb w,
                     Twb = wetBulbTemperature tdb w p_total,
                     T_dew = temperatureFromSaturationPressure pv, Pv = pv,
                     rho = density tdb w p_total, P_total = p_total\<rparr>)"

definition solveFromTdbW :: "jsnum \<Rightarrow> jsnum \<Rightarrow> jsnum \<Rightarrow> error + psy_state" where
  "solveFromTdbW tdb w p_total =
     (if js_lt w (Fin 0) then Inl NegativeHumidityRatio
      else
        let pv = vaporPressureFromHumidityRatio w p_total;
            p_sat = saturationVaporPressure tdb;
            rh = js_div (js_mul (Fin 100) pv) p_sat
        in if js_gt rh (Fin 100.5) then Inl Supersaturated
           else Inr \<lparr>Tdb = tdb, W = w, RH = js_min rh (Fin 100), h = enthalpy tdb w,
                     Twb = wetBulbTemperature tdb w p_total,
                     T_dew = temperatureFromSaturationPressure pv, Pv = pv,
                     rho = density tdb w p_total, P_total = p_total\<rparr>)"

definition tdbH_loop :: "jsnum \<Rightarrow> jsnum \<Rightarrow> jsnum \<Rightarrow> jsnum \<times> jsnum \<times> nat" where
  "tdbH_loop tdb h_target p_total =
     (let W_max = saturationHumidityRatio tdb p_total
      in bisect (\<lambda>W_mid. enthalpy tdb W_mid) h_target (Fin 0.000001) 100 (Fin 0) W_max 0)"

definition solveFromTdbH :: "jsnum \<Rightarrow> jsnum \<Rightarrow> jsnum \<Rightarrow> psy_state" where
  "solveFromTdbH tdb h_target p_total =
     (let w = midpoint_of (tdbH_loop tdb h_target p_total);
          pv = vaporPressureFromHumidityRatio w p_total;
          p_sat = saturationVaporPressure tdb;
          rh = js_div (js_mul (Fin 100) pv) p_sat
      in \<lparr>Tdb = tdb, W = w, RH = rh, h = h_target,
           Twb = wetBulbTemperature tdb w p_total,
           T_dew = temperatureFromSaturationPressure pv, Pv = pv,
           rho = density tdb w p_total, P_total = p_total\<rparr>)"

definition tdbTwb_loop :: "jsnum \<Rightarrow> jsnum \<Rightarrow> jsnum \<Rightarrow> jsnum \<times> jsnum \<times> nat" where
  "tdbTwb_loop tdb twb p_total =
     (let W_sat_wb = saturationHumidityRatio twb p_total;
          h_target = enthalpy twb W_sat_wb;
          W_sat = saturationHumidityRatio tdb p_total
      in bisect (\<lambda>W_mid. enthalpy tdb W_mid) h_target (Fin 0.000001) 100 (Fin 0) W_sat 0)"

definition solveFromTdbTwb :: "jsnum \<Rightarrow> jsnum \<Rightarrow> jsnum \<Rightarrow> error + psy_state" where
  "solveFromTdbTwb tdb twb p_total =
     (if js_gt twb tdb then Inl TwbAboveTdb
      else
        let w = midpoint_of (tdbTwb_loop tdb twb p_total);
            pv = vaporPressureFromHumidityRatio w p_total;
            p_sat = saturationVaporPressure tdb;
            rh = js_div (js_mul (Fin 100) pv) p_sat
        in Inr \<lparr>Tdb = tdb, W = w, RH = rh, h = enthalpy tdb w, Twb = twb,
                 T_dew = temperatureFromSaturationPressure pv, Pv = pv,
                 rho = density tdb w p_total, P_total = p_total\<rparr>)"

definition solveFromTdbTdp :: "jsnum \<Rightarrow> jsnum \<Rightarrow> jsnum \<Rightarrow> error + psy_state" where
  "solveFromTdbTdp tdb tdp p_total =
     (if js_gt tdp (js_add tdb (Fin 0.1)) then Inl TdpAboveTdb
      else
        let pv = saturationVaporPressure tdp;
            w = humidityRatioFromVaporPressure pv p_total;
            p_sat = saturationVaporPressure tdb;
            rh = js_div (js_mul (Fin 100) pv) p_sat
        in Inr \<lparr>Tdb = tdb, W = w, RH = rh, h = enthalpy tdb w,
                 Twb = wetBulbTemperature tdb w p_total, T_dew = tdp, Pv = pv,
                 rho = density tdb w p_total, P_total = p_total\<rparr>)"

definition wh_loop :: "jsnum \<Rightarrow> jsnum \<Rightarrow> jsnum \<times> jsnum \<times> nat" where
  "wh_loop w h_target =
     bisect (\<lambda>T_mid. enthalpy T_mid w) h_target (Fin 0.01) 100 (Fin (- 50)) (Fin 100) 0"

definition solveFromWH :: "jsnum \<Rightarrow> jsnum \<Rightarrow> jsnum \<Rightarrow> psy_state" where
  "solveFromWH w h_target p_total =
     (let tdb = midpoint_of (wh_loop w h_target);
          pv = vaporPressureFromHumidityRatio w p_total;
          p_sat = saturationVaporPressure tdb;
          rh = js_div (js_mul (Fin 100) pv) p_sat
      in \<lparr>Tdb = tdb, W = w, RH = rh, h = h_target,
           Twb = wetBulbTemperature tdb w p_total,
           T_dew = temperatureFromSaturationPressure pv, Pv = pv,
           rho = density tdb w p_total, P_total = p_total\<rparr>)"

definition solveFromTdbPv :: "jsnum \<Rightarrow> jsnum \<Rightarrow> jsnum \<Rightarrow> error + psy_state" where
  "solveFromTdbPv tdb pv p_total =
     (let w = humidityRatioFromVaporPressure pv p_total;
          p_sat = saturationVaporPressure tdb;
          rh = js_div (js_mul (Fin 100) pv) p_sat
      in if js_gt rh (Fin 100.5) then Inl SupersaturatedPv
         else Inr \<lparr>Tdb = tdb, W = w, RH = js_min rh (Fin 100), h = enthalpy tdb w,
                   Twb = wetBulbTemperature tdb w p_total,
                   T_dew = temperatureFromSaturationPressure pv, Pv = pv,
                   rho = density tdb w p_total, P_total = p_total\<rparr>)"

definition solveFromRHW :: "jsnum \<Rightarrow> jsnum \<Rightarrow> jsnum \<Rightarrow> psy_state" where
  "solveFromRHW rh w p_total =
     (let pv = vaporPressureFromHumidityRatio w p_total;
          p_sat_target = js_div (js_mul (Fin 100) pv) rh;
          tdb = temperatureFromSaturationPressure p_sat_target
      in \<lparr>Tdb = tdb, W = w, RH = rh, h = enthalpy tdb w,
           Twb = wetBulbTemperature tdb w p_total,
           T_dew = temperatureFromSaturationPressure pv, Pv = pv,
           rho = density tdb w p_total, P_total = p_total\<rparr>)"

section \<open>Pair dispatch\<close>

text \<open>
  \<^verbatim>\<open>[var1, var2].sort()\<close> orders the two identifiers by their code units and
  \<^verbatim>\<open>join("+")\<close> concatenates them around a plus sign.
\<close>

fun str_lt :: "string \<Rightarrow> string \<Rightarrow> bool" where
  "str_lt [] [] = False"
| "str_lt [] (d # ds) = True"
| "str_lt (c # cs) [] = False"
| "str_lt (c # cs) (d # ds) =
     (if c = d then str_lt cs ds else (of_char c :: nat) < of_char d)"

definition sort2 :: "string \<Rightarrow> string \<Rightarrow> string \<times> string" where
  "sort2 a b = (if str_lt b a then (b, a) else (a, b))"

definition pair_key :: "string \<Rightarrow> string \<Rightarrow> string" where
  "pair_key var1 var2 = (case sort2 var1 var2 of (a, b) \<Rightarrow> a @ ''+'' @ b)"

text \<open>
  The chain of comparisons of the pair key in \<^verbatim>\<open>solveState\<close>, in source order. Each
  branch reads its two values by the test \<^verbatim>\<open>var1 === "..." ? val1 : val2\<close>.
\<close>

definition dispatch ::
  "string \<Rightarrow> jsnum \<Rightarrow> string \<Rightarrow> jsnum \<Rightarrow> jsnum \<Rightarrow> error + psy_state" where
  "dispatch var1 val1 var2 val2 p_total =
     (let pair = pair_key var1 var2;
          pick = (\<lambda>name. if var1 = name then val1 else val2)
      in if pair = ''rh+tdb'' then solveFromTdbRH (pick ''tdb'') (pick ''rh'') p_total
         else if pair = ''tdb+w'' then solveFromTdbW (pick ''tdb'') (pick ''w'') p_total
         else if pair = ''h+tdb'' then Inr (solveFromTdbH (pick ''tdb'') (pick ''h'') p_total)
         else if pair = ''tdb+twb'' then solveFromTdbTwb (pick ''tdb'') (pick ''twb'') p_total
         else if pair = ''tdp+tdb'' then solveFromTdbTdp (pick ''tdb'') (pick ''tdp'') p_total
         else if pair = ''h+w'' then Inr (solveFromWH (pick ''w'') (pick ''h'') p_total)
         else if pair = ''pv+tdb'' then solveFromTdbPv (pick ''tdb'') (pick ''pv'') p_total
         else if pair = ''rh+w'' then Inr (solveFromRHW (pick ''rh'') (pick ''w'') p_total)
         else Inl (UnsupportedPair var1 var2))"

text \<open>
  The last lines of \<^verbatim>\<open>solveState\<close>: the mass flow is the reference flow unless
  \<^verbatim>\<open>m_da\<close> is one of the two inputs, the volumetric flow is derived from it unless
  \<^verbatim>\<open>v_dot\<close> is one of the two inputs (then the mass flow is derived back from it),
  and the pressure is written into the state.
\<close>

definition resolve_flows ::
  "string \<Rightarrow> jsnum \<Rightarrow> string \<Rightarrow> jsnum \<Rightarrow> jsnum \<Rightarrow> jsnum \<Rightarrow> psy_state \<Rightarrow> full_state" where
  "resolve_flows var1 val1 var2 val2 p_total m_da_ref state =
     (let m0 = (if var1 = ''m_da'' \<or> var2 = ''m_da''
                then (if var1 = ''m_da'' then val1 else val2) else m_da_ref);
          V0 = volumetricFlow m0 (rho state);
          V1 = (if var1 = ''v_dot'' \<or> var2 = ''v_dot''
                then (if var1 = ''v_dot'' then val1 else val2) else V0);
          m1 = (if var1 = ''v_dot'' \<or> var2 = ''v_dot''
                then js_mul (js_div V1 (Fin 3.6)) (rho state) else m0)
      in psy_state.extend (state\<lparr>P_total := p_total\<rparr>) (full_state.fields m1 V1))"

text \<open>
  \<^verbatim>\<open>solveState\<close>. A variable selector is a string, falsy when empty; a value is a
  number or \<^verbatim>\<open>null\<close> (\<open>None\<close>). Every pair solver returns an object whose
  \<^verbatim>\<open>Tdb\<close> is a number, so the test \<^verbatim>\<open>!state || state.Tdb === undefined\<close> after the
  dispatch never fires on such inputs and \<open>UnsolvableState\<close> is never returned.
\<close>

definition solveState ::
  "string \<Rightarrow> jsnum option \<Rightarrow> string \<Rightarrow> jsnum option \<Rightarrow> jsnum \<Rightarrow> jsnum \<Rightarrow> error + full_state" where
  "solveState var1 val1_opt var2 val2_opt p_total m_da_ref =
     (case (val1_opt, val2_opt) of
        (Some val1, Some val2) \<Rightarrow>
          if var1 = [] \<or> var2 = [] then Inl MissingInput
          else if var1 = var2 then Inl SameVariable
          else
            (case dispatch var1 val1 var2 val2 p_total of
               Inl e \<Rightarrow> Inl e
             | Inr state \<Rightarrow>
                 Inr (resolve_flows var1 val1 var2 val2 p_total m_da_ref state))
      | _ \<Rightarrow> Inl MissingInput)"

text \<open>
  Vocabulary of the statements below: the two selected kinds are \<open>a\<close> and \<open>b\<close> in
  either order; a kind is one of the two flow kinds; the dispatch chain has a branch
  for the pair key of the two kinds.
\<close>

definition is_pair :: "string \<Rightarrow> string \<Rightarrow> string \<Rightarrow> string \<Rightarrow> bool" where
  "is_pair var1 var2 a b = (var1 = a \<and> var2 = b \<or> var1 = b \<and> var2 = a)"

definition is_flow :: "string \<Rightarrow> bool" where
  "is_flow var = (var = ''m_da'' \<or> var = ''v_dot'')"

definition has_branch :: "string \<Rightarrow> string \<Rightarrow> bool" where
  "has_branch var1 var2 =
     (pair_key var1 var2 \<in> set [''rh+tdb'', ''tdb+w'', ''h+tdb'', ''tdb+twb'', ''tdp+tdb'',
                                 ''h+w'', ''pv+tdb'', ''rh+w''])"

section \<open>Arithmetic on finite numbers\<close>

lemma enthalpy_Fin: "enthalpy (Fin t) (Fin w) = Fin (1.006 * t + w * (2501 + 1.86 * t))"
  by (simp add: enthalpy_def C_DA_def H_FG_0_def H_FG_T_def)

lemma js_sub_Fin [simp]: "js_sub (Fin a) (Fin b) = Fin (a - b)"
  by (simp add: js_sub_def)

lemma js_gt_Fin [simp]: "js_gt (Fin a) (Fin b) = (b < a)"
  by (simp add: js_gt_def)

lemma js_mid_Fin [simp]: "js_div (js_add (Fin a) (Fin b)) (Fin 2) = Fin ((a + b) / 2)"
  by simp

lemma sat0: "saturationVaporPressure (Fin 0) = Fin 611.2"
  by (simp add: saturationVaporPressure_def)

section \<open>Facts about the bisection loop\<close>

lemma bisect_stop:
  assumes "\<not> (js_gt (js_sub hi lo) tolerance \<and> n < cap)"
  shows "bisect f tg tolerance cap lo hi n = (lo, hi, n)"
  by (subst bisect.simps) (simp only: assms if_False)

lemma bisect_left:
  assumes "js_gt (js_sub hi lo) tolerance" "n < cap"
    and "js_lt (f (js_div (js_add lo hi) (Fin 2))) tg"
  shows "bisect f tg tolerance cap lo hi n =
         bisect f tg tolerance cap (js_div (js_add lo hi) (Fin 2)) hi (n + 1)"
  by (subst bisect.simps) (simp only: assms Let_def if_True simp_thms)

lemma bisect_right:
  assumes "js_gt (js_sub hi lo) tolerance" "n < cap"
    and "\<not> js_lt (f (js_div (js_add lo hi) (Fin 2))) tg"
  shows "bisect f tg tolerance cap lo hi n =
         bisect f tg tolerance cap lo (js_div (js_add lo hi) (Fin 2)) (n + 1)"
  by (subst bisect.simps) (simp only: assms Let_def if_True if_False simp_thms)

lemma bisect_cap: "iterations_of (bisect f tg tolerance cap lo hi n) \<le> max n cap"
proof (induction k \<equiv> "cap - n" arbitrary: n lo hi)
  case 0
  then have "\<not> (js_gt (js_sub hi lo) tolerance \<and> n < cap)" by simp
  from bisect_stop[OF this, of f tg] show ?case by (simp add: iterations_of_def)
next
  case (Suc k)
  show ?case
  proof (cases "js_gt (js_sub hi lo) tolerance \<and> n < cap")
    case False
    from bisect_stop[OF False, of f tg] show ?thesis by (simp add: iterations_of_def)
  next
    case True
    then have g: "js_gt (js_sub hi lo) tolerance" and c: "n < cap" by simp_all
    have k: "k = cap - (n + 1)" using Suc.hyps(2) by simp
    show ?thesis
    proof (cases "js_lt (f (js_div (js_add lo hi) (Fin 2))) tg")
      case True
      from bisect_left[where f = f and tg = tg, OF g c True] Suc.hyps(1)[OF k] c
      show ?thesis by simp
    next
      case False
      from bisect_right[where f = f and tg = tg, OF g c False] Suc.hyps(1)[OF k] c
      show ?thesis by simp
    qed
  qed
qed

text \<open>One step of the loop on a finite bracket.\<close>

lemma bisect_Fin_step:
  assumes "tol < u - l" "n < cap"
  shows "bisect f tg (Fin tol) cap (Fin l) (Fin u) n =
          (if js_lt (f (Fin ((l + u) / 2))) tg
           then bisect f tg (Fin tol) cap (Fin ((l + u) / 2)) (Fin u) (n + 1)
           else bisect f tg (Fin tol) cap (Fin l) (Fin ((l + u) / 2)) (n + 1))"
proof -
  have g: "js_gt (js_sub (Fin u) (Fin l)) (Fin tol)" using assms(1) by simp
  have mid: "js_div (js_add (Fin l) (Fin u)) (Fin 2) = Fin ((l + u) / 2)" by simp
  show ?thesis
  proof (cases "js_lt (f (Fin ((l + u) / 2))) tg")
    case True
    then have "js_lt (f (js_div (js_add (Fin l) (Fin u)) (Fin 2))) tg" by simp
    from bisect_left[where f = f and tg = tg, OF g assms(2) this] True
    show ?thesis by (simp only: mid if_True)
  next
    case False
    then have "\<not> js_lt (f (js_div (js_add (Fin l) (Fin u)) (Fin 2))) tg" by simp
    from bisect_right[where f = f and tg = tg, OF g assms(2) this] False
    show ?thesis by (simp only: mid if_False)
  qed
qed

lemma bisect_Fin_stop:
  assumes "u - l \<le> tol \<or> cap \<le> n"
  shows "bisect f tg (Fin tol) cap (Fin l) (Fin u) n = (Fin l, Fin u, n)"
proof -
  have "\<not> (js_gt (js_sub (Fin u) (Fin l)) (Fin tol) \<and> n < cap)" using assms by auto
  from bisect_stop[OF this] show ?thesis .
qed

lemma bisect_Fin:
  assumes "l \<le> u"
  shows "\<exists>l' u' n'. bisect f tg (Fin tol) cap (Fin l) (Fin u) n = (Fin l', Fin u', n')
      \<and> l \<le> l' \<and> l' \<le> u' \<and> u' \<le> u \<and> n \<le> n'
      \<and> u' - l' = (u - l) / 2 ^ (n' - n)
      \<and> (u' - l' \<le> tol \<or> cap \<le> n')
      \<and> (l' = l \<or> js_lt (f (Fin l')) tg)
      \<and> (u' = u \<or> \<not> js_lt (f (Fin u')) tg)"
  using assms
proof (induction k \<equiv> "cap - n" arbitrary: n l u)
  case 0
  then have "u - l \<le> tol \<or> cap \<le> n" by simp
  from bisect_Fin_stop[OF this, of f tg] 0 show ?case by simp
next
  case (Suc k)
  let ?m = "(l + u) / 2"
  show ?case
  proof (cases "tol < u - l \<and> n < cap")
    case False
    then have "u - l \<le> tol \<or> cap \<le> n" by auto
    from bisect_Fin_stop[OF this, of f tg] this Suc.prems show ?thesis by simp
  next
    case True
    then have g: "tol < u - l" and c: "n < cap" by simp_all
    have k: "k = cap - (n + 1)" using Suc.hyps(2) by simp
    have lm: "l \<le> ?m" and mu: "?m \<le> u" using Suc.prems by simp_all
    show ?thesis
    proof (cases "js_lt (f (Fin ?m)) tg")
      case lt: True
      have step: "bisect f tg (Fin tol) cap (Fin l) (Fin u) n
                  = bisect f tg (Fin tol) cap (Fin ?m) (Fin u) (n + 1)"
        using bisect_Fin_step[OF g c, of f tg] lt by simp
      from Suc.hyps(1)[OF k mu]
      obtain l' u' n' where r: "bisect f tg (Fin tol) cap (Fin ?m) (Fin u) (n + 1) = (Fin l', Fin u', n')"
        "?m \<le> l'" "l' \<le> u'" "u' \<le> u" "n + 1 \<le> n'"
        "u' - l' = (u - ?m) / 2 ^ (n' - (n + 1))"
        "u' - l' \<le> tol \<or> cap \<le> n'"
        "l' = ?m \<or> js_lt (f (Fin l')) tg"
        "u' = u \<or> \<not> js_lt (f (Fin u')) tg"
        by blast
      have a: "l \<le> l'" using lm r(2) by linarith
      have b: "n \<le> n'" using r(5) by simp
      have "n' - n = Suc (n' - (n + 1))" using r(5) by simp
      then have "(u - l) / 2 ^ (n' - n) = (u - ?m) / 2 ^ (n' - (n + 1))"
        by (simp add: field_simps)
      then have w: "u' - l' = (u - l) / 2 ^ (n' - n)" using r(6) by metis
      have d: "l' = l \<or> js_lt (f (Fin l')) tg" using r(8) lt by metis
      from r(1) a r(3) r(4) b w r(7) d r(9) show ?thesis unfolding step by blast
    next
      case ge: False
      have step: "bisect f tg (Fin tol) cap (Fin l) (Fin u) n
                  = bisect f tg (Fin tol) cap (Fin l) (Fin ?m) (n + 1)"
        using bisect_Fin_step[OF g c, of f tg] ge by simp
      from Suc.hyps(1)[OF k lm]
      obtain l' u' n' where r: "bisect f tg (Fin tol) cap (Fin l) (Fin ?m) (n + 1) = (Fin l', Fin u', n')"
        "l \<le> l'" "l' \<le> u'" "u' \<le> ?m" "n + 1 \<le> n'"
        "u' - l' = (?m - l) / 2 ^ (n' - (n + 1))"
        "u' - l' \<le> tol \<or> cap \<le> n'"
        "l' = l \<or> js_lt (f (Fin l')) tg"
        "u' = ?m \<or> \<not> js_lt (f (Fin u')) tg"
        by blast
      have a: "u' \<le> u" using mu r(4) by linarith
      have b: "n \<le> n'" using r(5) by simp
      have "n' - n = Suc (n' - (n + 1))" using r(5) by simp
      then have "(u - l) / 2 ^ (n' - n) = (?m - l) / 2 ^ (n' - (n + 1))"
        by (simp add: field_simps)
      then have w: "u' - l' = (u - l) / 2 ^ (n' - n)" using r(6) by metis
      have d: "u' = u \<or> \<not> js_lt (f (Fin u')) tg" using r(9) ge by metis
      from r(1) r(2) r(3) a b w r(7) r(8) d show ?thesis unfolding step by blast
    qed
  qed
qed

lemma bisect_Fin_count:
  assumes "u - l \<le> tol * 2 ^ k"
  shows "iterations_of (bisect f tg (Fin tol) cap (Fin l) (Fin u) n) \<le> n + k"
  using assms
proof (induction k arbitrary: n l u)
  case 0
  then have "u - l \<le> tol \<or> cap \<le> n" by simp
  from bisect_Fin_stop[OF this, of f tg] show ?case by (simp add: iterations_of_def)
next
  case (Suc k)
  let ?m = "(l + u) / 2"
  show ?case
  proof (cases "tol < u - l \<and> n < cap")
    case False
    then have "u - l \<le> tol \<or> cap \<le> n" by auto
    from bisect_Fin_stop[OF this, of f tg] show ?thesis by (simp add: iterations_of_def)
  next
    case True
    then have g: "tol < u - l" and c: "n < cap" by simp_all
    have w1: "u - ?m \<le> tol * 2 ^ k" and w2: "?m - l \<le> tol * 2 ^ k"
      using Suc.prems by (simp_all add: field_simps)
    from Suc.IH[OF w1, of "n + 1"] Suc.IH[OF w2, of "n + 1"]
    show ?thesis unfolding bisect_Fin_step[OF g c] by simp
  qed
qed

section \<open>Facts about the pair dispatch\<close>

text \<open>
  Which selections produce each key the dispatch chain compares against. No selection
  produces \<^verbatim>\<open>"tdp+tdb"\<close>: the sort puts \<^verbatim>\<open>"tdb"\<close> before \<^verbatim>\<open>"tdp"\<close>.
\<close>

lemma key_rh_tdb: "pair_key v1 v2 = ''rh+tdb'' \<longleftrightarrow> is_pair v1 v2 ''tdb'' ''rh''"
  by (auto simp: is_pair_def pair_key_def sort2_def append_eq_Cons_conv split: if_splits)
lemma key_tdb_w: "pair_key v1 v2 = ''tdb+w'' \<longleftrightarrow> is_pair v1 v2 ''tdb'' ''w''"
  by (auto simp: is_pair_def pair_key_def sort2_def append_eq_Cons_conv split: if_splits)
lemma key_h_tdb: "pair_key v1 v2 = ''h+tdb'' \<longleftrightarrow> is_pair v1 v2 ''tdb'' ''h''"
  by (auto simp: is_pair_def pair_key_def sort2_def append_eq_Cons_conv split: if_splits)
lemma key_tdb_twb: "pair_key v1 v2 = ''tdb+twb'' \<longleftrightarrow> is_pair v1 v2 ''tdb'' ''twb''"
  by (auto simp: is_pair_def pair_key_def sort2_def append_eq_Cons_conv split: if_splits)
lemma key_tdp_tdb: "pair_key v1 v2 = ''tdp+tdb'' \<longleftrightarrow> False"
  by (auto simp: pair_key_def sort2_def append_eq_Cons_conv split: if_splits)
lemma key_h_w: "pair_key v1 v2 = ''h+w'' \<longleftrightarrow> is_pair v1 v2 ''w'' ''h''"
  by (auto simp: is_pair_def pair_key_def sort2_def append_eq_Cons_conv split: if_splits)
lemma key_pv_tdb: "pair_key v1 v2 = ''pv+tdb'' \<longleftrightarrow> is_pair v1 v2 ''tdb'' ''pv''"
  by (auto simp: is_pair_def pair_key_def sort2_def append_eq_Cons_conv split: if_splits)
lemma key_rh_w: "pair_key v1 v2 = ''rh+w'' \<longleftrightarrow> is_pair v1 v2 ''rh'' ''w''"
  by (auto simp: is_pair_def pair_key_def sort2_def append_eq_Cons_conv split: if_splits)

lemmas pair_key_iff = key_rh_tdb key_tdb_w key_h_tdb key_tdb_twb key_tdp_tdb key_h_w key_pv_tdb key_rh_w

lemma dispatch_cases:
  "dispatch v1 x v2 y p =
     (if is_pair v1 v2 ''tdb'' ''rh'' then
        solveFromTdbRH (if v1 = ''tdb'' then x else y) (if v1 = ''rh'' then x else y) p
      else if is_pair v1 v2 ''tdb'' ''w'' then
        solveFromTdbW (if v1 = ''tdb'' then x else y) (if v1 = ''w'' then x else y) p
      else if is_pair v1 v2 ''tdb'' ''h'' then
        Inr (solveFromTdbH (if v1 = ''tdb'' then x else y) (if v1 = ''h'' then x else y) p)
      else if is_pair v1 v2 ''tdb'' ''twb'' then
        solveFromTdbTwb (if v1 = ''tdb'' then x else y) (if v1 = ''twb'' then x else y) p
      else if is_pair v1 v2 ''w'' ''h'' then
        Inr (solveFromWH (if v1 = ''w'' then x else y) (if v1 = ''h'' then x else y) p)
      else if is_pair v1 v2 ''tdb'' ''pv'' then
        solveFromTdbPv (if v1 = ''tdb'' then x else y) (if v1 = ''pv'' then x else y) p
      else if is_pair v1 v2 ''rh'' ''w'' then
        Inr (solveFromRHW (if v1 = ''rh'' then x else y) (if v1 = ''w'' then x else y) p)
      else Inl (UnsupportedPair v1 v2))"
  unfolding dispatch_def Let_def pair_key_iff by simp

lemma has_branch_iff:
  "has_branch v1 v2 \<longleftrightarrow>
     is_pair v1 v2 ''tdb'' ''rh'' \<or> is_pair v1 v2 ''tdb'' ''w'' \<or> is_pair v1 v2 ''tdb'' ''h'' \<or>
     is_pair v1 v2 ''tdb'' ''twb'' \<or> is_pair v1 v2 ''w'' ''h'' \<or> is_pair v1 v2 ''tdb'' ''pv'' \<or>
     is_pair v1 v2 ''rh'' ''w''"
  by (simp add: has_branch_def pair_key_iff)

lemma dispatch_swap_pair:
  assumes "is_pair v1 v2 a b"
    and "dispatch a x b y p = dispatch b y a x p" "dispatch b x a y p = dispatch a y b x p"
  shows "dispatch v1 x v2 y p = dispatch v2 y v1 x p"
proof -
  from assms(1) consider "v1 = a" "v2 = b" | "v1 = b" "v2 = a" unfolding is_pair_def by blast
  then show ?thesis
  proof cases
    case 1 then show ?thesis using assms(2) by simp
  next
    case 2 then show ?thesis using assms(3) by simp
  qed
qed

lemma dispatch_swap:
  assumes "has_branch v1 v2"
  shows "dispatch v1 x v2 y p = dispatch v2 y v1 x p"
proof -
  from assms consider
    (c0) "is_pair v1 v2 ''tdb'' ''rh''"
  | (c1) "is_pair v1 v2 ''tdb'' ''w''"
  | (c2) "is_pair v1 v2 ''tdb'' ''h''"
  | (c3) "is_pair v1 v2 ''tdb'' ''twb''"
  | (c4) "is_pair v1 v2 ''w'' ''h''"
  | (c5) "is_pair v1 v2 ''tdb'' ''pv''"
  | (c6) "is_pair v1 v2 ''rh'' ''w''"
    unfolding has_branch_iff by blast
  then show ?thesis
  proof cases
    case c0
    have "dispatch ''tdb'' x ''rh'' y p = dispatch ''rh'' y ''tdb'' x p"
      and "dispatch ''rh'' x ''tdb'' y p = dispatch ''tdb'' y ''rh'' x p"
      by (simp_all add: dispatch_cases is_pair_def)
    with c0 show ?thesis by (rule dispatch_swap_pair)
  next
    case c1
    have "dispatch ''tdb'' x ''w'' y p = dispatch ''w'' y ''tdb'' x p"
      and "dispatch ''w'' x ''tdb'' y p = dispatch ''tdb'' y ''w'' x p"
      by (simp_all add: dispatch_cases is_pair_def)
    with c1 show ?thesis by (rule dispatch_swap_pair)
  next
    case c2
    have "dispatch ''tdb'' x ''h'' y p = dispatch ''h'' y ''tdb'' x p"
      and "dispatch ''h'' x ''tdb'' y p = dispatch ''tdb'' y ''h'' x p"
      by (simp_all add: dispatch_cases is_pair_def)
    with c2 show ?thesis by (rule dispatch_swap_pair)
  next
    case c3
    have "dispatch ''tdb'' x ''twb'' y p = dispatch ''twb'' y ''tdb'' x p"
      and "dispatch ''twb'' x ''tdb'' y p = dispatch ''tdb'' y ''twb'' x p"
      by (simp_all add: dispatch_cases is_pair_def)
    with c3 show ?thesis by (rule dispatch_swap_pair)
  next
    case c4
    have "dispatch ''w'' x ''h'' y p = dispatch ''h'' y ''w'' x p"
      and "dispatch ''h'' x ''w'' y p = dispatch ''w'' y ''h'' x p"
      by (simp_all add: dispatch_cases is_pair_def)
    with c4 show ?thesis by (rule dispatch_swap_pair)
  next
    case c5
    have "dispatch ''tdb'' x ''pv'' y p = dispatch ''pv'' y ''tdb'' x p"
      and "dispatch ''pv'' x ''tdb'' y p = dispatch ''tdb'' y ''pv'' x p"
      by (simp_all add: dispatch_cases is_pair_def)
    with c5 show ?thesis by (rule dispatch_swap_pair)
  next
    case c6
    have "dispatch ''rh'' x ''w'' y p = dispatch ''w'' y ''rh'' x p"
      and "dispatch ''w'' x ''rh'' y p = dispatch ''rh'' y ''w'' x p"
      by (simp_all add: dispatch_cases is_pair_def)
    with c6 show ?thesis by (rule dispatch_swap_pair)
  qed
qed

section \<open>Facts about \<^verbatim>\<open>solveState\<close>\<close>

lemma solveState_Some:
  "solveState v1 (Some x) v2 (Some y) p m =
     (if v1 = [] \<or> v2 = [] then Inl MissingInput
      else if v1 = v2 then Inl SameVariable
      else map_sum id (resolve_flows v1 x v2 y p m) (dispatch v1 x v2 y p))"
  by (simp add: solveState_def split: sum.splits)

lemma solveState_None:
  "a = None \<or> b = None \<Longrightarrow> solveState v1 a v2 b p m = Inl MissingInput"
  by (auto simp: solveState_def split: option.splits)

lemma resolve_flows_default:
  "\<not> is_flow v1 \<Longrightarrow> \<not> is_flow v2 \<Longrightarrow>
   resolve_flows v1 x v2 y p m s =
     psy_state.extend (s\<lparr>P_total := p\<rparr>) (full_state.fields m (volumetricFlow m (rho s)))"
  by (simp add: resolve_flows_def is_flow_def)

lemma resolve_flows_swap:
  "v1 \<noteq> v2 \<Longrightarrow> resolve_flows v1 x v2 y p m s = resolve_flows v2 y v1 x p m s"
  by (auto simp: resolve_flows_def Let_def)

lemma resolve_flows_fields [simp]:
  "Tdb (resolve_flows v1 x v2 y p m s) = Tdb s"
  "W (resolve_flows v1 x v2 y p m s) = W s"
  "RH (resolve_flows v1 x v2 y p m s) = RH s"
  "h (resolve_flows v1 x v2 y p m s) = h s"
  "Twb (resolve_flows v1 x v2 y p m s) = Twb s"
  "T_dew (resolve_flows v1 x v2 y p m s) = T_dew s"
  "Pv (resolve_flows v1 x v2 y p m s) = Pv s"
  "rho (resolve_flows v1 x v2 y p m s) = rho s"
  "P_total (resolve_flows v1 x v2 y p m s) = p"
  by (simp_all add: resolve_flows_def Let_def psy_state.defs full_state.defs)

lemma resolve_flows_flow_fields:
  "\<not> is_flow v1 \<Longrightarrow> \<not> is_flow v2 \<Longrightarrow> m_da (resolve_flows v1 x v2 y p m s) = m"
  "\<not> is_flow v1 \<Longrightarrow> \<not> is_flow v2 \<Longrightarrow>
     V_dot (resolve_flows v1 x v2 y p m s) = volumetricFlow m (rho s)"
  by (simp_all add: resolve_flows_default psy_state.defs full_state.defs)

lemma is_pair_not_flow:
  assumes "is_flow v1 \<or> is_flow v2"
  shows "\<not> is_pair v1 v2 ''tdb'' ''rh''" "\<not> is_pair v1 v2 ''tdb'' ''w''"
    "\<not> is_pair v1 v2 ''tdb'' ''h''" "\<not> is_pair v1 v2 ''tdb'' ''twb''"
    "\<not> is_pair v1 v2 ''w'' ''h''" "\<not> is_pair v1 v2 ''tdb'' ''pv''"
    "\<not> is_pair v1 v2 ''rh'' ''w''"
  using assms by (auto simp: is_pair_def is_flow_def)

lemma dispatch_flow:
  "is_flow v1 \<or> is_flow v2 \<Longrightarrow> dispatch v1 x v2 y p = Inl (UnsupportedPair v1 v2)"
  by (simp add: dispatch_cases is_pair_not_flow)

lemma has_branch_not_flow: "has_branch v1 v2 \<Longrightarrow> \<not> is_flow v1 \<and> \<not> is_flow v2"
  unfolding has_branch_iff using is_pair_not_flow[of v1 v2] by blast

text \<open>
  The branch of \<^verbatim>\<open>solveFromTdbTdp\<close> is never taken: dry-bulb with dew point, in
  either order, ends in the final \<^verbatim>\<open>else\<close> of the chain.
\<close>

lemma solveState_tdb_tdp:
  "solveState ''tdb'' (Some x) ''tdp'' (Some y) p m = Inl (UnsupportedPair ''tdb'' ''tdp'')"
  "solveState ''tdp'' (Some y) ''tdb'' (Some x) p m = Inl (UnsupportedPair ''tdp'' ''tdb'')"
  by (simp_all add: solveState_Some dispatch_cases is_pair_def)

section \<open>Claims about the pair dispatch\<close>

text \<open>
  Claim C5, as amended. For two non-empty selections with both values supplied,
  other than dry-bulb with dew point: identical selections fail with the
  same-variable error; the seven pairs dry-bulb with relative humidity, humidity
  ratio, enthalpy, wet-bulb or vapour pressure, humidity ratio with enthalpy, and
  relative humidity with humidity ratio are resolved, in either order, by their own
  pair solver, each value going to the parameter of its kind; every other
  combination of two distinct kinds fails with the unsupported-pair error.
\<close>

theorem C5_dispatch_table:
  assumes "v1 \<noteq> []" "v2 \<noteq> []" "\<not> is_pair v1 v2 ''tdb'' ''tdp''"
  shows "solveState v1 (Some x) v2 (Some y) p m =
     (if v1 = v2 then Inl SameVariable
      else map_sum id (resolve_flows v1 x v2 y p m)
       (if is_pair v1 v2 ''tdb'' ''rh'' then
          solveFromTdbRH (if v1 = ''tdb'' then x else y) (if v1 = ''rh'' then x else y) p
        else if is_pair v1 v2 ''tdb'' ''w'' then
          solveFromTdbW (if v1 = ''tdb'' then x else y) (if v1 = ''w'' then x else y) p
        else if is_pair v1 v2 ''tdb'' ''h'' then
          Inr (solveFromTdbH (if v1 = ''tdb'' then x else y) (if v1 = ''h'' then x else y) p)
        else if is_pair v1 v2 ''tdb'' ''twb'' then
          solveFromTdbTwb (if v1 = ''tdb'' then x else y) (if v1 = ''twb'' then x else y) p
        else if is_pair v1 v2 ''tdb'' ''pv'' then
          solveFromTdbPv (if v1 = ''tdb'' then x else y) (if v1 = ''pv'' then x else y) p
        else if is_pair v1 v2 ''w'' ''h'' then
          Inr (solveFromWH (if v1 = ''w'' then x else y) (if v1 = ''h'' then x else y) p)
        else if is_pair v1 v2 ''rh'' ''w'' then
          Inr (solveFromRHW (if v1 = ''rh'' then x else y) (if v1 = ''w'' then x else y) p)
        else Inl (UnsupportedPair v1 v2)))"
proof -
  have "dispatch v1 x v2 y p =
       (if is_pair v1 v2 ''tdb'' ''rh'' then
          solveFromTdbRH (if v1 = ''tdb'' then x else y) (if v1 = ''rh'' then x else y) p
        else if is_pair v1 v2 ''tdb'' ''w'' then
          solveFromTdbW (if v1 = ''tdb'' then x else y) (if v1 = ''w'' then x else y) p
        else if is_pair v1 v2 ''tdb'' ''h'' then
          Inr (solveFromTdbH (if v1 = ''tdb'' then x else y) (if v1 = ''h'' then x else y) p)
        else if is_pair v1 v2 ''tdb'' ''twb'' then
          solveFromTdbTwb (if v1 = ''tdb'' then x else y) (if v1 = ''twb'' then x else y) p
        else if is_pair v1 v2 ''tdb'' ''pv'' then
          solveFromTdbPv (if v1 = ''tdb'' then x else y) (if v1 = ''pv'' then x else y) p
        else if is_pair v1 v2 ''w'' ''h'' then
          Inr (solveFromWH (if v1 = ''w'' then x else y) (if v1 = ''h'' then x else y) p)
        else if is_pair v1 v2 ''rh'' ''w'' then
          Inr (solveFromRHW (if v1 = ''rh'' then x else y) (if v1 = ''w'' then x else y) p)
        else Inl (UnsupportedPair v1 v2))"
    unfolding dispatch_cases by (auto simp: is_pair_def)
  then show ?thesis using assms(1,2) by (simp only: solveState_Some) simp
qed

text \<open>Claim C5 as amended, at an unsupported pair and at a supported one.\<close>

theorem C5_dispatch_table_witness:
  "solveState ''m_da'' (Some (Fin 1)) ''v_dot'' (Some (Fin 3000)) (Fin 101325) (Fin 1)
     = Inl (UnsupportedPair ''m_da'' ''v_dot'')
   \<and> solveState ''rh'' (Some (Fin 50)) ''tdb'' (Some (Fin 20)) (Fin 101325) (Fin 1)
     = map_sum id (resolve_flows ''rh'' (Fin 50) ''tdb'' (Fin 20) (Fin 101325) (Fin 1))
         (solveFromTdbRH (Fin 20) (Fin 50) (Fin 101325))"
  using C5_dispatch_table[of "''m_da''" "''v_dot''" "Fin 1" "Fin 3000" "Fin 101325" "Fin 1"]
    C5_dispatch_table[of "''rh''" "''tdb''" "Fin 50" "Fin 20" "Fin 101325" "Fin 1"]
  by (simp add: is_pair_def)

text \<open>
  Claim C5 as stated fails: two identical kinds do not fail with the unsupported-pair
  error but with the same-variable error, raised by its own guard before the dispatch.
\<close>

theorem C5_identical_kinds_counterexample:
  "solveState ''tdb'' (Some (Fin 20)) ''tdb'' (Some (Fin 25)) (Fin 101325) (Fin 1)
     = Inl SameVariable
   \<and> solveState ''tdb'' (Some (Fin 20)) ''tdb'' (Some (Fin 25)) (Fin 101325) (Fin 1)
     \<noteq> Inl (UnsupportedPair ''tdb'' ''tdb'')"
  by (simp add: solveState_Some)

text \<open>
  Claim C7. Swapping the two (kind, value) arguments does not change the result of
  \<^verbatim>\<open>solveState\<close>, state or error: for dry-bulb with relative humidity, and for
  every pair of kinds for which the dispatch chain has a branch. The values may be
  any numbers, or missing.
\<close>

theorem C7_order_independent:
  "solveState ''tdb'' a ''rh'' b p m = solveState ''rh'' b ''tdb'' a p m
   \<and> (has_branch v1 v2 \<longrightarrow> solveState v1 a v2 b p m = solveState v2 b v1 a p m)"
proof -
  have sym: "solveState v1 a v2 b p m = solveState v2 b v1 a p m" if hb: "has_branch v1 v2"
    for v1 v2
  proof (cases "a = None \<or> b = None")
    case True
    then show ?thesis by (auto simp: solveState_None)
  next
    case False
    then obtain x y where ab: "a = Some x" "b = Some y" by auto
    show ?thesis
    proof (cases "v1 = v2")
      case True
      then show ?thesis unfolding ab solveState_Some by simp
    next
      case False
      have "resolve_flows v1 x v2 y p m = resolve_flows v2 y v1 x p m"
        by (rule ext) (rule resolve_flows_swap[OF False])
      with False dispatch_swap[OF hb, of x y p]
      show ?thesis unfolding ab solveState_Some by auto
    qed
  qed
  have "has_branch ''tdb'' ''rh''" by (simp add: has_branch_iff is_pair_def)
  from sym[OF this] sym show ?thesis by blast
qed

text \<open>Claim C7 at the enthalpy and humidity-ratio pair.\<close>

theorem C7_order_independent_witness:
  "has_branch ''h'' ''w''
   \<and> solveState ''h'' (Some (Fin 50)) ''w'' (Some (Fin 0.01)) (Fin 101325) (Fin 1)
     = solveState ''w'' (Some (Fin 0.01)) ''h'' (Some (Fin 50)) (Fin 101325) (Fin 1)"
  using C7_order_independent[of "Some (Fin 50)" "Some (Fin 0.01)" "Fin 101325" "Fin 1" "''h''" "''w''"]
  by (simp add: has_branch_iff is_pair_def)




section \<open>Facts about the enthalpy search\<close>

text \<open>The loop of the humidity-ratio and enthalpy pair always runs fourteen times.\<close>

lemma wh_loop_bracket:
  "\<exists>l' u'. wh_loop w tg = (Fin l', Fin u', 14)
      \<and> - 50 \<le> l' \<and> l' \<le> u' \<and> u' \<le> 100 \<and> u' - l' = 75 / 8192
      \<and> (l' = - 50 \<or> js_lt (enthalpy (Fin l') w) tg)
      \<and> (u' = 100 \<or> \<not> js_lt (enthalpy (Fin u') w) tg)"
proof -
  let ?f = "\<lambda>T_mid. enthalpy T_mid w"
  have le: "(- 50 :: real) \<le> 100" by simp
  from bisect_Fin[OF le, of ?f tg "0.01" 100 0]
  obtain l' u' n' where r:
    "bisect ?f tg (Fin 0.01) 100 (Fin (- 50)) (Fin 100) 0 = (Fin l', Fin u', n')"
    "- 50 \<le> l'" "l' \<le> u'" "u' \<le> 100"
    "u' - l' = (100 - (- 50)) / 2 ^ (n' - 0)"
    "u' - l' \<le> 0.01 \<or> 100 \<le> n'"
    "l' = - 50 \<or> js_lt (enthalpy (Fin l') w) tg"
    "u' = 100 \<or> \<not> js_lt (enthalpy (Fin u') w) tg"
    by blast
  have "(100 :: real) - (- 50) \<le> 0.01 * 2 ^ 14" by simp
  from bisect_Fin_count[OF this, of ?f tg 100 0] r(1)
  have up: "n' \<le> 14" by (simp add: iterations_of_def)
  have w: "u' - l' = 150 / 2 ^ n'" using r(5) by simp
  have lo: "14 \<le> n'"
  proof (rule ccontr)
    assume "\<not> 14 \<le> n'"
    then have "n' \<le> 13" by simp
    then have "(2::real) ^ n' \<le> 2 ^ 13" by (intro power_increasing) simp_all
    then have "(2::real) ^ n' \<le> 8192" by simp
    then have a: "150 / 8192 \<le> 150 / (2::real) ^ n'"
      by (intro divide_left_mono) simp_all
    from r(6) up have "u' - l' \<le> 0.01" by simp
    with w have b: "150 / (2::real) ^ n' \<le> 0.01" by simp
    have "(0.01::real) < 150 / 8192" by simp
    with a b show False by linarith
  qed
  with up have n: "n' = 14" by simp
  from w have "u' - l' = 75 / 8192" unfolding n by simp
  with r show ?thesis unfolding wh_loop_def n by blast
qed

lemma wh_loop_iterations: "iterations_of (wh_loop w tg) = 14"
  using wh_loop_bracket[of w tg] by (auto simp: iterations_of_def)


lemma midpoint_of_Fin [simp]: "midpoint_of (Fin l, Fin u, n) = Fin ((l + u) / 2)"
  by (simp add: midpoint_of_def)

text \<open>Enthalpy on finite numbers is affine in the temperature with slope \<open>1.006 + 1.86 w\<close>.\<close>

lemma enthalpy_affine:
  "1.006 * t + w * (2501 + 1.86 * t) = (1.006 + 1.86 * w) * t + 2501 * (w :: real)"
  by (simp add: algebra_simps)

lemma enthalpy_lt_iff:
  "js_lt (enthalpy (Fin t) (Fin w)) (Fin hv) \<longleftrightarrow> (1.006 + 1.86 * w) * t + 2501 * w < hv"
  by (simp add: enthalpy_Fin algebra_simps)

lemma wh_converges:
  assumes w: "0 \<le> w"
    and lo: "1.006 * (- 50) + w * (2501 + 1.86 * (- 50)) \<le> hv"
    and hi: "hv \<le> 1.006 * 100 + w * (2501 + 1.86 * 100)"
  shows "\<exists>t r. midpoint_of (wh_loop (Fin w) (Fin hv)) = Fin t
           \<and> - 50 \<le> r \<and> r \<le> 100 \<and> 1.006 * r + w * (2501 + 1.86 * r) = hv
           \<and> \<bar>t - r\<bar> \<le> 75 / 16384"
proof -
  define s where "s = 1.006 + 1.86 * w"
  define r where "r = (hv - 2501 * w) / s"
  have s: "0 < s" using w by (simp add: s_def)
  have e: "1.006 * t + w * (2501 + 1.86 * t) = s * t + 2501 * w" for t
    unfolding s_def by (rule enthalpy_affine)
  have er: "s * r + 2501 * w = hv" using s by (simp add: r_def)
  have r_lo: "- 50 \<le> r"
  proof -
    from lo have "s * (- 50) \<le> s * r" unfolding e er[symmetric] by simp
    with s show ?thesis by (simp only: mult_le_cancel_left_pos)
  qed
  have r_hi: "r \<le> 100"
  proof -
    from hi have "s * r \<le> s * 100" unfolding e er[symmetric] by simp
    with s show ?thesis by (simp only: mult_le_cancel_left_pos)
  qed
  from wh_loop_bracket[of "Fin w" "Fin hv"]
  obtain l' u' where b: "wh_loop (Fin w) (Fin hv) = (Fin l', Fin u', 14)"
    "- 50 \<le> l'" "l' \<le> u'" "u' \<le> 100" "u' - l' = 75 / 8192"
    "l' = - 50 \<or> js_lt (enthalpy (Fin l') (Fin w)) (Fin hv)"
    "u' = 100 \<or> \<not> js_lt (enthalpy (Fin u') (Fin w)) (Fin hv)"
    by blast
  have l_r: "l' \<le> r"
  proof (cases "l' = - 50")
    case True with r_lo show ?thesis by simp
  next
    case False
    with b(6) have "(1.006 + 1.86 * w) * l' + 2501 * w < hv"
      using enthalpy_lt_iff by blast
    then have "s * l' + 2501 * w < hv" unfolding s_def .
    then have "s * l' < s * r" using er by simp
    with s show ?thesis by (simp add: mult_less_cancel_left_pos)
  qed
  have r_u: "r \<le> u'"
  proof (cases "u' = 100")
    case True with r_hi show ?thesis by simp
  next
    case False
    with b(7) have "\<not> (1.006 + 1.86 * w) * u' + 2501 * w < hv"
      using enthalpy_lt_iff by blast
    then have "\<not> s * u' + 2501 * w < hv" unfolding s_def .
    then have "s * r \<le> s * u'" using er by simp
    with s show ?thesis by (simp only: mult_le_cancel_left_pos)
  qed
  have "\<bar>(l' + u') / 2 - r\<bar> \<le> 75 / 16384" using l_r r_u b(5) by argo
  moreover have "midpoint_of (wh_loop (Fin w) (Fin hv)) = Fin ((l' + u') / 2)"
    unfolding b(1) by simp
  moreover have "1.006 * r + w * (2501 + 1.86 * r) = hv" unfolding e by (rule er)
  ultimately show ?thesis using r_lo r_hi by blast
qed


lemma solveState_w_h:
  "solveState ''w'' (Some w) ''h'' (Some hv) p m
     = Inr (resolve_flows ''w'' w ''h'' hv p m (solveFromWH w hv p))"
  by (simp add: solveState_Some dispatch_cases is_pair_def)

lemma solveState_tdb_h:
  "solveState ''tdb'' (Some tdb) ''h'' (Some hv) p m
     = Inr (resolve_flows ''tdb'' tdb ''h'' hv p m (solveFromTdbH tdb hv p))"
  by (simp add: solveState_Some dispatch_cases is_pair_def)

lemma solveFromWH_fields [simp]:
  "Tdb (solveFromWH w hv p) = midpoint_of (wh_loop w hv)"
  "W (solveFromWH w hv p) = w"
  "h (solveFromWH w hv p) = hv"
  by (simp_all add: solveFromWH_def Let_def)

lemma solveFromTdbH_fields [simp]:
  "Tdb (solveFromTdbH tdb hv p) = tdb"
  "W (solveFromTdbH tdb hv p) = midpoint_of (tdbH_loop tdb hv p)"
  "h (solveFromTdbH tdb hv p) = hv"
  by (simp_all add: solveFromTdbH_def Let_def)

section \<open>Claims about the bisection loops\<close>



text \<open>
  Claim C8. Enthalpy is \<open>C_DA T + W (H_FG_0 + H_FG_T T)\<close>; on finite numbers it is
  strictly increasing in the temperature over \<open>[-50, 100]\<close> for a humidity ratio
  \<open>W \<ge> 0\<close>, and strictly increasing in the humidity ratio for a temperature in
  that range. For a target between the enthalpies at -50 and at 100 the humidity-ratio
  and enthalpy pair resolves to a dry-bulb temperature within 0.01 of the root of
  \<open>enthalpy(T, W) = h\<close> in the bracket (finite numbers are reals here: rounding
  is not modelled).
\<close>

theorem C8_enthalpy_monotone:
  "enthalpy t w = js_add (js_mul C_DA t) (js_mul w (js_add H_FG_0 (js_mul H_FG_T t)))
   \<and> (0 \<le> wr \<and> - 50 \<le> t1 \<and> t1 < t2 \<and> t2 \<le> 100 \<longrightarrow>
        js_lt (enthalpy (Fin t1) (Fin wr)) (enthalpy (Fin t2) (Fin wr)))
   \<and> (- 50 \<le> tr \<and> tr \<le> 100 \<and> w1 < w2 \<longrightarrow>
        js_lt (enthalpy (Fin tr) (Fin w1)) (enthalpy (Fin tr) (Fin w2)))
   \<and> (0 \<le> wr \<and> js_ge (Fin hr) (enthalpy (Fin (- 50)) (Fin wr))
        \<and> js_ge (enthalpy (Fin 100) (Fin wr)) (Fin hr) \<longrightarrow>
        (\<exists>s td r. solveState ''w'' (Some (Fin wr)) ''h'' (Some (Fin hr)) p m = Inr s
            \<and> Tdb s = Fin td \<and> - 50 \<le> r \<and> r \<le> 100
            \<and> enthalpy (Fin r) (Fin wr) = Fin hr \<and> \<bar>td - r\<bar> < 0.01))"
proof (intro conjI impI)
  show "enthalpy t w = js_add (js_mul C_DA t) (js_mul w (js_add H_FG_0 (js_mul H_FG_T t)))"
    by (simp add: enthalpy_def)
next
  assume a: "0 \<le> wr \<and> - 50 \<le> t1 \<and> t1 < t2 \<and> t2 \<le> 100"
  then have "0 < 1.006 + 1.86 * wr" by simp
  with a have "(1.006 + 1.86 * wr) * t1 < (1.006 + 1.86 * wr) * t2"
    by (simp only: mult_less_cancel_left_pos)
  then show "js_lt (enthalpy (Fin t1) (Fin wr)) (enthalpy (Fin t2) (Fin wr))"
    unfolding enthalpy_Fin[of t2 wr] enthalpy_lt_iff enthalpy_affine by simp
next
  assume a: "- 50 \<le> tr \<and> tr \<le> 100 \<and> w1 < w2"
  then have "0 < 2501 + 1.86 * tr" by simp
  with a have "w1 * (2501 + 1.86 * tr) < w2 * (2501 + 1.86 * tr)"
    by (simp only: mult_less_cancel_right_pos)
  then show "js_lt (enthalpy (Fin tr) (Fin w1)) (enthalpy (Fin tr) (Fin w2))"
    unfolding enthalpy_Fin by simp
next
  assume a: "0 \<le> wr \<and> js_ge (Fin hr) (enthalpy (Fin (- 50)) (Fin wr))
        \<and> js_ge (enthalpy (Fin 100) (Fin wr)) (Fin hr)"
  then have "0 \<le> wr" "1.006 * (- 50) + wr * (2501 + 1.86 * (- 50)) \<le> hr"
    "hr \<le> 1.006 * 100 + wr * (2501 + 1.86 * 100)"
    unfolding enthalpy_Fin by simp_all
  from wh_converges[OF this]
  obtain td r where c: "midpoint_of (wh_loop (Fin wr) (Fin hr)) = Fin td"
    "- 50 \<le> r" "r \<le> 100" "1.006 * r + wr * (2501 + 1.86 * r) = hr"
    "\<bar>td - r\<bar> \<le> 75 / 16384" by blast
  have "(75::real) / 16384 < 0.01" by simp
  with c(5) have "\<bar>td - r\<bar> < 0.01" by (rule le_less_trans)
  moreover from c(4) have "enthalpy (Fin r) (Fin wr) = Fin hr" unfolding enthalpy_Fin by simp
  ultimately show "\<exists>s td r. solveState ''w'' (Some (Fin wr)) ''h'' (Some (Fin hr)) p m = Inr s
            \<and> Tdb s = Fin td \<and> - 50 \<le> r \<and> r \<le> 100
            \<and> enthalpy (Fin r) (Fin wr) = Fin hr \<and> \<bar>td - r\<bar> < 0.01"
    unfolding solveState_w_h using c(1,2,3) by (intro exI conjI) (rule refl, simp, assumption+)
qed


text \<open>Claim C8 at concrete temperatures, humidity ratios and target.\<close>

theorem C8_enthalpy_monotone_witness:
  "js_lt (enthalpy (Fin 20) (Fin 0.01)) (enthalpy (Fin 30) (Fin 0.01))
   \<and> js_lt (enthalpy (Fin 20) (Fin 0.01)) (enthalpy (Fin 20) (Fin 0.02))
   \<and> (\<exists>s td r. solveState ''w'' (Some (Fin 0.01)) ''h'' (Some (Fin 50)) (Fin 101325) (Fin 1) = Inr s
          \<and> Tdb s = Fin td \<and> - 50 \<le> r \<and> r \<le> 100
          \<and> enthalpy (Fin r) (Fin 0.01) = Fin 50 \<and> \<bar>td - r\<bar> < 0.01)"
proof -
  have a: "(0::real) \<le> 0.01 \<and> (- 50::real) \<le> 20 \<and> (20::real) < 30 \<and> (30::real) \<le> 100" by simp
  have b: "(- 50::real) \<le> 20 \<and> (20::real) \<le> 100 \<and> (0.01::real) < 0.02" by simp
  have c: "(0::real) \<le> 0.01 \<and> js_ge (Fin 50) (enthalpy (Fin (- 50)) (Fin 0.01))
        \<and> js_ge (enthalpy (Fin 100) (Fin 0.01)) (Fin 50)"
    by (simp add: enthalpy_Fin)
  from C8_enthalpy_monotone[where wr = "0.01" and ?t1.0 = 20 and ?t2.0 = 30 and tr = 20
      and ?w1.0 = "0.01" and ?w2.0 = "0.02" and hr = 50 and p = "Fin 101325" and m = "Fin 1"]
    a b c
  show ?thesis by blast
qed

section \<open>Facts about targets outside the bracket\<close>

text \<open>
  Every iteration but the first starts from a bracket wider than the tolerance, so
  the final bracket, doubled, is wider than the tolerance whenever the loop has run.
\<close>

lemma bisect_Fin_last:
  assumes "l \<le> u"
  shows "\<exists>l' u' n'. bisect f tg (Fin tol) cap (Fin l) (Fin u) n = (Fin l', Fin u', n')
      \<and> (n' = n \<or> tol < 2 * (u' - l'))"
  using assms
proof (induction k \<equiv> "cap - n" arbitrary: n l u)
  case 0
  then have "u - l \<le> tol \<or> cap \<le> n" by simp
  from bisect_Fin_stop[OF this, of f tg] show ?case by simp
next
  case (Suc k)
  let ?m = "(l + u) / 2"
  show ?case
  proof (cases "tol < u - l \<and> n < cap")
    case False
    then have "u - l \<le> tol \<or> cap \<le> n" by auto
    from bisect_Fin_stop[OF this, of f tg] show ?thesis by simp
  next
    case True
    then have g: "tol < u - l" and c: "n < cap" by simp_all
    have k: "k = cap - (n + 1)" using Suc.hyps(2) by simp
    have lm: "l \<le> ?m" and mu: "?m \<le> u" using Suc.prems by simp_all
    show ?thesis
    proof (cases "js_lt (f (Fin ?m)) tg")
      case lt: True
      have step: "bisect f tg (Fin tol) cap (Fin l) (Fin u) n
                  = bisect f tg (Fin tol) cap (Fin ?m) (Fin u) (n + 1)"
        using bisect_Fin_step[OF g c, of f tg] lt by simp
      from bisect_Fin[OF mu, of f tg tol cap "n + 1"]
      obtain l' u' n' where r:
        "bisect f tg (Fin tol) cap (Fin ?m) (Fin u) (n + 1) = (Fin l', Fin u', n')"
        "u' - l' = (u - ?m) / 2 ^ (n' - (n + 1))"
        by blast
      from Suc.hyps(1)[OF k mu] r(1)
      have d: "n' = n + 1 \<or> tol < 2 * (u' - l')" by auto
      have "tol < 2 * (u' - l')"
      proof (cases "n' = n + 1")
        case True
        with r(2) have "2 * (u' - l') = u - l" by (simp add: field_simps)
        with g show ?thesis by simp
      next
        case False
        with d show ?thesis by simp
      qed
      with r(1) show ?thesis unfolding step by blast
    next
      case ge: False
      have step: "bisect f tg (Fin tol) cap (Fin l) (Fin u) n
                  = bisect f tg (Fin tol) cap (Fin l) (Fin ?m) (n + 1)"
        using bisect_Fin_step[OF g c, of f tg] ge by simp
      from bisect_Fin[OF lm, of f tg tol cap "n + 1"]
      obtain l' u' n' where r:
        "bisect f tg (Fin tol) cap (Fin l) (Fin ?m) (n + 1) = (Fin l', Fin u', n')"
        "u' - l' = (?m - l) / 2 ^ (n' - (n + 1))"
        by blast
      from Suc.hyps(1)[OF k lm] r(1)
      have d: "n' = n + 1 \<or> tol < 2 * (u' - l')" by auto
      have "tol < 2 * (u' - l')"
      proof (cases "n' = n + 1")
        case True
        with r(2) have "2 * (u' - l') = u - l" by (simp add: field_simps)
        with g show ?thesis by simp
      next
        case False
        with d show ?thesis by simp
      qed
      with r(1) show ?thesis unfolding step by blast
    qed
  qed
qed

text \<open>
  A target above (below) every value on the bracket keeps the upper (lower) end and
  halves the bracket towards it; the number of halvings is the least that brings the
  width within the tolerance, or the cap.
\<close>

lemma bisect_Fin_all_lt:
  assumes "l \<le> u" and lt: "\<And>x. l \<le> x \<Longrightarrow> x \<le> u \<Longrightarrow> js_lt (f (Fin x)) tg"
  shows "\<exists>n'. bisect f tg (Fin tol) cap (Fin l) (Fin u) 0
             = (Fin (u - (u - l) / 2 ^ n'), Fin u, n')
           \<and> n' \<le> cap \<and> ((u - l) / 2 ^ n' \<le> tol \<or> n' = cap)
           \<and> (n' = 0 \<or> tol < 2 * ((u - l) / 2 ^ n'))"
proof -
  from bisect_Fin[OF assms(1), of f tg tol cap 0]
  obtain l' u' n' where r: "bisect f tg (Fin tol) cap (Fin l) (Fin u) 0 = (Fin l', Fin u', n')"
    "l \<le> l'" "l' \<le> u'" "u' \<le> u" "u' - l' = (u - l) / 2 ^ (n' - 0)"
    "u' - l' \<le> tol \<or> cap \<le> n'"
    "u' = u \<or> \<not> js_lt (f (Fin u')) tg"
    by blast
  from r(2,3,4) have "js_lt (f (Fin u')) tg" by (intro lt) simp_all
  with r(7) have u: "u' = u" by simp
  from r(5) have w: "u' - l' = (u - l) / 2 ^ n'" by simp
  then have l: "l' = u - (u - l) / 2 ^ n'" unfolding u by simp
  from bisect_cap[of f tg "Fin tol" cap "Fin l" "Fin u" 0] r(1)
  have c: "n' \<le> cap" by (simp add: iterations_of_def)
  with r(6) have s: "(u - l) / 2 ^ n' \<le> tol \<or> n' = cap" unfolding w by auto
  from bisect_Fin_last[OF assms(1), of f tg tol cap 0] r(1)
  have "n' = 0 \<or> tol < 2 * (u' - l')" by auto
  then have m: "n' = 0 \<or> tol < 2 * ((u - l) / 2 ^ n')" unfolding w .
  from r(1) c s m show ?thesis unfolding u l by blast
qed

lemma bisect_Fin_none_lt:
  assumes "l \<le> u" and ge: "\<And>x. l \<le> x \<Longrightarrow> x \<le> u \<Longrightarrow> \<not> js_lt (f (Fin x)) tg"
  shows "\<exists>n'. bisect f tg (Fin tol) cap (Fin l) (Fin u) 0
             = (Fin l, Fin (l + (u - l) / 2 ^ n'), n')
           \<and> n' \<le> cap \<and> ((u - l) / 2 ^ n' \<le> tol \<or> n' = cap)
           \<and> (n' = 0 \<or> tol < 2 * ((u - l) / 2 ^ n'))"
proof -
  from bisect_Fin[OF assms(1), of f tg tol cap 0]
  obtain l' u' n' where r: "bisect f tg (Fin tol) cap (Fin l) (Fin u) 0 = (Fin l', Fin u', n')"
    "l \<le> l'" "l' \<le> u'" "u' \<le> u" "u' - l' = (u - l) / 2 ^ (n' - 0)"
    "u' - l' \<le> tol \<or> cap \<le> n'"
    "l' = l \<or> js_lt (f (Fin l')) tg"
    by blast
  from r(2,3,4) have "\<not> js_lt (f (Fin l')) tg" by (intro ge) simp_all
  with r(7) have l: "l' = l" by simp
  from r(5) have w: "u' - l' = (u - l) / 2 ^ n'" by simp
  then have u: "u' = l + (u - l) / 2 ^ n'" unfolding l by simp
  from bisect_cap[of f tg "Fin tol" cap "Fin l" "Fin u" 0] r(1)
  have c: "n' \<le> cap" by (simp add: iterations_of_def)
  with r(6) have s: "(u - l) / 2 ^ n' \<le> tol \<or> n' = cap" unfolding w by auto
  from bisect_Fin_last[OF assms(1), of f tg tol cap 0] r(1)
  have "n' = 0 \<or> tol < 2 * (u' - l')" by auto
  then have m: "n' = 0 \<or> tol < 2 * ((u - l) / 2 ^ n')" unfolding w .
  from r(1) c s m show ?thesis unfolding u l by blast
qed

lemma wh_above:
  assumes w: "0 \<le> w" and hi: "1.006 * 100 + w * (2501 + 1.86 * 100) < hv"
  shows "midpoint_of (wh_loop (Fin w) (Fin hv)) = Fin (100 - 75 / 16384)"
proof -
  from wh_loop_bracket[of "Fin w" "Fin hv"]
  obtain l' u' where b: "wh_loop (Fin w) (Fin hv) = (Fin l', Fin u', 14)"
    "u' \<le> 100" "u' - l' = 75 / 8192"
    "u' = 100 \<or> \<not> js_lt (enthalpy (Fin u') (Fin w)) (Fin hv)"
    by blast
  have s: "0 < 1.006 + 1.86 * w" using w by simp
  then have "(1.006 + 1.86 * w) * u' \<le> (1.006 + 1.86 * w) * 100"
    using b(2) by (simp only: mult_le_cancel_left_pos)
  moreover have "(1.006 + 1.86 * w) * 100 + 2501 * w < hv"
    using hi unfolding enthalpy_affine .
  ultimately have "(1.006 + 1.86 * w) * u' + 2501 * w < hv" by linarith
  then have "js_lt (enthalpy (Fin u') (Fin w)) (Fin hv)" unfolding enthalpy_lt_iff .
  with b(4) have "u' = 100" by simp
  with b(3) have "(l' + u') / 2 = 100 - 75 / 16384" by argo
  then show ?thesis unfolding b(1) by simp
qed

lemma wh_below:
  assumes w: "0 \<le> w" and lo: "hv < 1.006 * (- 50) + w * (2501 + 1.86 * (- 50))"
  shows "midpoint_of (wh_loop (Fin w) (Fin hv)) = Fin (- 50 + 75 / 16384)"
proof -
  from wh_loop_bracket[of "Fin w" "Fin hv"]
  obtain l' u' where b: "wh_loop (Fin w) (Fin hv) = (Fin l', Fin u', 14)"
    "- 50 \<le> l'" "u' - l' = 75 / 8192"
    "l' = - 50 \<or> js_lt (enthalpy (Fin l') (Fin w)) (Fin hv)"
    by blast
  have s: "0 < 1.006 + 1.86 * w" using w by simp
  then have "(1.006 + 1.86 * w) * (- 50) \<le> (1.006 + 1.86 * w) * l'"
    using b(2) by (simp only: mult_le_cancel_left_pos)
  moreover have "hv < (1.006 + 1.86 * w) * (- 50) + 2501 * w"
    using lo unfolding enthalpy_affine .
  ultimately have "\<not> (1.006 + 1.86 * w) * l' + 2501 * w < hv" by linarith
  then have "\<not> js_lt (enthalpy (Fin l') (Fin w)) (Fin hv)" unfolding enthalpy_lt_iff .
  with b(4) have "l' = - 50" by simp
  with b(3) have "(l' + u') / 2 = - 50 + 75 / 16384" by argo
  then show ?thesis unfolding b(1) by simp
qed

lemma tdbH_above:
  assumes ws: "saturationHumidityRatio (Fin td) p = Fin ws" "0 \<le> ws"
    and k: "0 < 2501 + 1.86 * td"
    and hi: "1.006 * td + ws * (2501 + 1.86 * td) < hv"
  shows "\<exists>n. tdbH_loop (Fin td) (Fin hv) p = (Fin (ws - ws / 2 ^ n), Fin ws, n)
           \<and> n \<le> 100 \<and> (ws / 2 ^ n \<le> 0.000001 \<or> n = 100)
           \<and> (n = 0 \<or> 0.000001 < 2 * (ws / 2 ^ n))"
proof -
  have lt: "js_lt (enthalpy (Fin td) (Fin x)) (Fin hv)" if "0 \<le> x" "x \<le> ws" for x
  proof -
    from that(2) k have "x * (2501 + 1.86 * td) \<le> ws * (2501 + 1.86 * td)"
      by (simp only: mult_le_cancel_right_pos)
    with hi have "1.006 * td + x * (2501 + 1.86 * td) < hv" by linarith
    then show ?thesis unfolding enthalpy_Fin by simp
  qed
  from bisect_Fin_all_lt[of 0 ws "\<lambda>W_mid. enthalpy (Fin td) W_mid" "Fin hv" "0.000001" 100,
      OF ws(2) lt]
  show ?thesis unfolding tdbH_loop_def Let_def ws(1) by simp
qed

lemma tdbH_below:
  assumes ws: "saturationHumidityRatio (Fin td) p = Fin ws" "0 \<le> ws"
    and k: "0 < 2501 + 1.86 * td"
    and lo: "hv < 1.006 * td"
  shows "\<exists>n. tdbH_loop (Fin td) (Fin hv) p = (Fin 0, Fin (ws / 2 ^ n), n)
           \<and> n \<le> 100 \<and> (ws / 2 ^ n \<le> 0.000001 \<or> n = 100)
           \<and> (n = 0 \<or> 0.000001 < 2 * (ws / 2 ^ n))"
proof -
  have ge: "\<not> js_lt (enthalpy (Fin td) (Fin x)) (Fin hv)" if "0 \<le> x" "x \<le> ws" for x
  proof -
    from that(1) k have "0 \<le> x * (2501 + 1.86 * td)" by simp
    with lo have "\<not> 1.006 * td + x * (2501 + 1.86 * td) < hv" by linarith
    then show ?thesis unfolding enthalpy_Fin by simp
  qed
  from bisect_Fin_none_lt[of 0 ws "\<lambda>W_mid. enthalpy (Fin td) W_mid" "Fin hv" "0.000001" 100,
      OF ws(2) ge]
  show ?thesis unfolding tdbH_loop_def Let_def ws(1) by simp
qed

text \<open>
  Arithmetic of the mismatch: the distance of the target from the enthalpy at the end
  of the bracket plus the enthalpy change over the last half-bracket.
\<close>

lemma halved_midpoint:
  fixes ws :: real
  shows "(ws - ws / 2 ^ n + ws) / 2 = ws - ws / 2 ^ (n + 1)"
    and "(0 + ws / 2 ^ n) / 2 = ws / 2 ^ (n + 1)"
  by (simp_all add: field_simps)

lemma gap_w_above:
  fixes td :: real
  shows "hr - (1.006 * td + (ws - d) * (2501 + 1.86 * td))
         = (hr - (1.006 * td + ws * (2501 + 1.86 * td))) + (2501 + 1.86 * td) * d"
  by (simp only: left_diff_distrib mult.commute[of d])

lemma gap_w_below:
  fixes td :: real
  shows "(1.006 * td + d * (2501 + 1.86 * td)) - hr
         = (1.006 * td + 0 * (2501 + 1.86 * td) - hr) + (2501 + 1.86 * td) * d"
  by (simp only: mult.commute[of d])

lemma gap_t_above:
  fixes wr :: real
  shows "hr - ((1.006 + 1.86 * wr) * (100 - 75 / 16384) + 2501 * wr)
         = (hr - ((1.006 + 1.86 * wr) * 100 + 2501 * wr)) + (1.006 + 1.86 * wr) * (75 / 16384)"
  by (simp only: right_diff_distrib)

lemma gap_t_below:
  fixes wr :: real
  shows "((1.006 + 1.86 * wr) * (- 50 + 75 / 16384) + 2501 * wr) - hr
         = (((1.006 + 1.86 * wr) * (- 50) + 2501 * wr) - hr) + (1.006 + 1.86 * wr) * (75 / 16384)"
  by (simp only: distrib_left)

lemma wh_state_above:
  assumes "0 \<le> wr" "js_gt (Fin hr) (enthalpy (Fin 100) (Fin wr))"
  shows "\<exists>s e ee. solveState ''w'' (Some (Fin wr)) ''h'' (Some (Fin hr)) p m = Inr s
           \<and> h s = Fin hr \<and> Tdb s = Fin (100 - 75 / 16384)
           \<and> enthalpy (Tdb s) (W s) = Fin e \<and> enthalpy (Fin 100) (Fin wr) = Fin ee
           \<and> hr - e = (hr - ee) + (1.006 + 1.86 * wr) * (75 / 16384)
           \<and> (1.006 + 1.86 * wr) * (75 / 16384) < hr - e"
proof -
  let ?s = "resolve_flows ''w'' (Fin wr) ''h'' (Fin hr) p m (solveFromWH (Fin wr) (Fin hr) p)"
  let ?t = "100 - 75 / 16384 :: real"
  let ?e = "(1.006 + 1.86 * wr) * ?t + 2501 * wr"
  let ?ee = "(1.006 + 1.86 * wr) * 100 + 2501 * wr"
  from assms(2) have hi: "1.006 * 100 + wr * (2501 + 1.86 * 100) < hr"
    unfolding enthalpy_Fin by simp
  note mp = wh_above[OF assms(1) hi]
  then have t: "Tdb ?s = Fin ?t" by simp
  have hs: "h ?s = Fin hr" by simp
  have e: "enthalpy (Tdb ?s) (W ?s) = Fin ?e"
    by (simp only: resolve_flows_fields solveFromWH_fields mp enthalpy_Fin enthalpy_affine)
  have ee: "enthalpy (Fin 100) (Fin wr) = Fin ?ee"
    by (simp only: enthalpy_Fin enthalpy_affine)
  have eq: "hr - ?e = (hr - ?ee) + (1.006 + 1.86 * wr) * (75 / 16384)" by (rule gap_t_above)
  from hi have "0 < hr - ?ee" unfolding enthalpy_affine by simp
  with eq have "(1.006 + 1.86 * wr) * (75 / 16384) < hr - ?e" by linarith
  with hs t e ee eq show ?thesis unfolding solveState_w_h by blast
qed

lemma wh_state_below:
  assumes "0 \<le> wr" "js_lt (Fin hr) (enthalpy (Fin (- 50)) (Fin wr))"
  shows "\<exists>s e ee. solveState ''w'' (Some (Fin wr)) ''h'' (Some (Fin hr)) p m = Inr s
           \<and> h s = Fin hr \<and> Tdb s = Fin (- 50 + 75 / 16384)
           \<and> enthalpy (Tdb s) (W s) = Fin e \<and> enthalpy (Fin (- 50)) (Fin wr) = Fin ee
           \<and> e - hr = (ee - hr) + (1.006 + 1.86 * wr) * (75 / 16384)
           \<and> (1.006 + 1.86 * wr) * (75 / 16384) < e - hr"
proof -
  let ?s = "resolve_flows ''w'' (Fin wr) ''h'' (Fin hr) p m (solveFromWH (Fin wr) (Fin hr) p)"
  let ?t = "- 50 + 75 / 16384 :: real"
  let ?e = "(1.006 + 1.86 * wr) * ?t + 2501 * wr"
  let ?ee = "(1.006 + 1.86 * wr) * (- 50) + 2501 * wr"
  from assms(2) have lo: "hr < 1.006 * (- 50) + wr * (2501 + 1.86 * (- 50))"
    unfolding enthalpy_Fin by simp
  note mp = wh_below[OF assms(1) lo]
  then have t: "Tdb ?s = Fin ?t" by simp
  have hs: "h ?s = Fin hr" by simp
  have e: "enthalpy (Tdb ?s) (W ?s) = Fin ?e"
    by (simp only: resolve_flows_fields solveFromWH_fields mp enthalpy_Fin enthalpy_affine)
  have ee: "enthalpy (Fin (- 50)) (Fin wr) = Fin ?ee"
    by (simp only: enthalpy_Fin enthalpy_affine)
  have eq: "?e - hr = (?ee - hr) + (1.006 + 1.86 * wr) * (75 / 16384)" by (rule gap_t_below)
  from lo have "0 < ?ee - hr" unfolding enthalpy_affine by simp
  with eq have "(1.006 + 1.86 * wr) * (75 / 16384) < ?e - hr" by linarith
  with hs t e ee eq show ?thesis unfolding solveState_w_h by blast
qed

lemma wh_state_between:
  assumes "0 \<le> wr" "js_ge (Fin hr) (enthalpy (Fin (- 50)) (Fin wr))"
    "js_ge (enthalpy (Fin 100) (Fin wr)) (Fin hr)"
  shows "\<exists>s e. solveState ''w'' (Some (Fin wr)) ''h'' (Some (Fin hr)) p m = Inr s
           \<and> enthalpy (Tdb s) (W s) = Fin e
           \<and> \<bar>hr - e\<bar> \<le> (1.006 + 1.86 * wr) * (75 / 16384)"
proof -
  let ?s = "resolve_flows ''w'' (Fin wr) ''h'' (Fin hr) p m (solveFromWH (Fin wr) (Fin hr) p)"
  from assms have "0 \<le> wr" "1.006 * (- 50) + wr * (2501 + 1.86 * (- 50)) \<le> hr"
    "hr \<le> 1.006 * 100 + wr * (2501 + 1.86 * 100)"
    unfolding enthalpy_Fin by simp_all
  from wh_converges[OF this]
  obtain td r where c: "midpoint_of (wh_loop (Fin wr) (Fin hr)) = Fin td"
    "1.006 * r + wr * (2501 + 1.86 * r) = hr" "\<bar>td - r\<bar> \<le> 75 / 16384" by blast
  let ?e = "(1.006 + 1.86 * wr) * td + 2501 * wr"
  have e: "enthalpy (Tdb ?s) (W ?s) = Fin ?e"
    by (simp only: resolve_flows_fields solveFromWH_fields c(1) enthalpy_Fin enthalpy_affine)
  have s: "0 \<le> 1.006 + 1.86 * wr" using assms(1) by simp
  have "hr - ?e = (1.006 + 1.86 * wr) * (r - td)"
    unfolding c(2)[symmetric] enthalpy_affine by (simp only: right_diff_distrib)
  then have "\<bar>hr - ?e\<bar> = (1.006 + 1.86 * wr) * \<bar>r - td\<bar>"
    using s by (simp add: abs_mult)
  also have "\<dots> \<le> (1.006 + 1.86 * wr) * (75 / 16384)"
    using c(3) s by (intro mult_left_mono) (simp_all add: abs_minus_commute)
  finally show ?thesis using e unfolding solveState_w_h by blast
qed

lemma tdbH_state_above:
  assumes "saturationHumidityRatio (Fin td) p = Fin ws" "0 \<le> ws" "0 < 2501 + 1.86 * td"
    "js_gt (Fin hr) (enthalpy (Fin td) (Fin ws))"
  shows "\<exists>s n e ee. solveState ''tdb'' (Some (Fin td)) ''h'' (Some (Fin hr)) p m = Inr s
           \<and> h s = Fin hr
           \<and> tdbH_loop (Fin td) (Fin hr) p = (Fin (ws - ws / 2 ^ n), Fin ws, n)
           \<and> n \<le> 100 \<and> (ws / 2 ^ n \<le> 0.000001 \<or> n = 100)
           \<and> (n = 0 \<or> 0.000001 < 2 * (ws / 2 ^ n))
           \<and> W s = Fin (ws - ws / 2 ^ (n + 1))
           \<and> enthalpy (Tdb s) (W s) = Fin e \<and> enthalpy (Fin td) (Fin ws) = Fin ee
           \<and> hr - e = (hr - ee) + (2501 + 1.86 * td) * (ws / 2 ^ (n + 1))
           \<and> (2501 + 1.86 * td) * (ws / 2 ^ (n + 1)) < hr - e"
proof -
  let ?s = "resolve_flows ''tdb'' (Fin td) ''h'' (Fin hr) p m (solveFromTdbH (Fin td) (Fin hr) p)"
  from assms(4) have hi: "1.006 * td + ws * (2501 + 1.86 * td) < hr"
    unfolding enthalpy_Fin by simp
  from tdbH_above[OF assms(1,2,3) hi]
  obtain n where b: "tdbH_loop (Fin td) (Fin hr) p = (Fin (ws - ws / 2 ^ n), Fin ws, n)"
    "n \<le> 100" "ws / 2 ^ n \<le> 0.000001 \<or> n = 100" "n = 0 \<or> 0.000001 < 2 * (ws / 2 ^ n)"
    by blast
  let ?d = "ws / 2 ^ (n + 1)"
  let ?e = "1.006 * td + (ws - ?d) * (2501 + 1.86 * td)"
  let ?ee = "1.006 * td + ws * (2501 + 1.86 * td)"
  have hs: "h ?s = Fin hr" by simp
  have w: "W ?s = Fin (ws - ?d)"
    by (simp only: resolve_flows_fields solveFromTdbH_fields b(1) midpoint_of_Fin
        halved_midpoint)
  have e: "enthalpy (Tdb ?s) (W ?s) = Fin ?e"
    unfolding w by (simp only: resolve_flows_fields solveFromTdbH_fields enthalpy_Fin)
  have ee: "enthalpy (Fin td) (Fin ws) = Fin ?ee" by (rule enthalpy_Fin)
  have eq: "hr - ?e = (hr - ?ee) + (2501 + 1.86 * td) * ?d" by (rule gap_w_above)
  from hi have "0 < hr - ?ee" by simp
  with eq have "(2501 + 1.86 * td) * ?d < hr - ?e" by linarith
  with hs b w e ee eq show ?thesis unfolding solveState_tdb_h by blast
qed

lemma tdbH_state_below:
  assumes "saturationHumidityRatio (Fin td) p = Fin ws" "0 \<le> ws" "0 < 2501 + 1.86 * td"
    "js_lt (Fin hr) (enthalpy (Fin td) (Fin 0))"
  shows "\<exists>s n e ee. solveState ''tdb'' (Some (Fin td)) ''h'' (Some (Fin hr)) p m = Inr s
           \<and> h s = Fin hr
           \<and> tdbH_loop (Fin td) (Fin hr) p = (Fin 0, Fin (ws / 2 ^ n), n)
           \<and> n \<le> 100 \<and> (ws / 2 ^ n \<le> 0.000001 \<or> n = 100)
           \<and> (n = 0 \<or> 0.000001 < 2 * (ws / 2 ^ n))
           \<and> W s = Fin (ws / 2 ^ (n + 1))
           \<and> enthalpy (Tdb s) (W s) = Fin e \<and> enthalpy (Fin td) (Fin 0) = Fin ee
           \<and> e - hr = (ee - hr) + (2501 + 1.86 * td) * (ws / 2 ^ (n + 1))
           \<and> (2501 + 1.86 * td) * (ws / 2 ^ (n + 1)) < e - hr"
proof -
  let ?s = "resolve_flows ''tdb'' (Fin td) ''h'' (Fin hr) p m (solveFromTdbH (Fin td) (Fin hr) p)"
  from assms(4) have lo: "hr < 1.006 * td"
    unfolding enthalpy_Fin by simp
  from tdbH_below[OF assms(1,2,3) lo]
  obtain n where b: "tdbH_loop (Fin td) (Fin hr) p = (Fin 0, Fin (ws / 2 ^ n), n)"
    "n \<le> 100" "ws / 2 ^ n \<le> 0.000001 \<or> n = 100" "n = 0 \<or> 0.000001 < 2 * (ws / 2 ^ n)"
    by blast
  let ?d = "ws / 2 ^ (n + 1)"
  let ?e = "1.006 * td + ?d * (2501 + 1.86 * td)"
  let ?ee = "1.006 * td + 0 * (2501 + 1.86 * td)"
  have hs: "h ?s = Fin hr" by simp
  have w: "W ?s = Fin ?d"
    by (simp only: resolve_flows_fields solveFromTdbH_fields b(1) midpoint_of_Fin
        halved_midpoint)
  have e: "enthalpy (Tdb ?s) (W ?s) = Fin ?e"
    unfolding w by (simp only: resolve_flows_fields solveFromTdbH_fields enthalpy_Fin)
  have ee: "enthalpy (Fin td) (Fin 0) = Fin ?ee" by (rule enthalpy_Fin)
  have eq: "?e - hr = (?ee - hr) + (2501 + 1.86 * td) * ?d" by (rule gap_w_below)
  from lo have "0 < ?ee - hr" by simp
  with eq have "(2501 + 1.86 * td) * ?d < ?e - hr" by linarith
  with hs b w e ee eq show ?thesis unfolding solveState_tdb_h by blast
qed

lemma satW0:
  "saturationHumidityRatio (Fin 0) (Fin 101325) = Fin (0.622 * 611.2 / (101325 - 611.2))"
  by (simp add: saturationHumidityRatio_def sat0 humidityRatioFromVaporPressure_def K_W_def)

section \<open>Claims about the enthalpy pairs\<close>




section \<open>Facts about the wet-bulb search and the pair solvers\<close>

text \<open>The wet-bulb search never returns a finite value below both ends of its bracket.\<close>

lemma wet_bulb_low_cases:
  "js_max (js_sub T (Fin 5)) (Fin (- 50)) = NaN
   \<or> js_max (js_sub T (Fin 5)) (Fin (- 50)) = PInf
   \<or> (\<exists>l. js_max (js_sub T (Fin 5)) (Fin (- 50)) = Fin l \<and> - 50 \<le> l)"
  by (cases T) (auto simp: js_sub_def)

lemma midpoint_bisect_lower:
  assumes "midpoint_of (bisect f tg (Fin 0.001) cap lo (Fin u) 0) = Fin x"
    and "lo = NaN \<or> lo = PInf \<or> (\<exists>l. lo = Fin l \<and> - 50 \<le> l)"
  shows "min (- 50) u \<le> x"
proof -
  from assms(2) consider (nan) "lo = NaN" | (inf) "lo = PInf"
    | (fin) l where "lo = Fin l" "- 50 \<le> l" by blast
  then show ?thesis
  proof cases
    case nan
    have "\<not> (js_gt (js_sub (Fin u) NaN) (Fin 0.001) \<and> 0 < cap)"
      by (simp add: js_sub_def js_gt_def)
    from bisect_stop[OF this, of f tg] assms(1) show ?thesis
      unfolding nan by (simp add: midpoint_of_def)
  next
    case inf
    have "\<not> (js_gt (js_sub (Fin u) PInf) (Fin 0.001) \<and> 0 < cap)"
      by (simp add: js_sub_def js_gt_def)
    from bisect_stop[OF this, of f tg] assms(1) show ?thesis
      unfolding inf by (simp add: midpoint_of_def signed_inf_def)
  next
    case fin
    show ?thesis
    proof (cases "l \<le> u")
      case True
      from bisect_Fin[OF True, of f tg "0.001" cap 0]
      obtain l' u' n' where r: "bisect f tg (Fin 0.001) cap (Fin l) (Fin u) 0 = (Fin l', Fin u', n')"
        "l \<le> l'" "l' \<le> u'" by blast
      from assms(1) have "x = (l' + u') / 2" unfolding fin(1) r(1) by simp
      with r(2,3) fin(2) show ?thesis by simp
    next
      case False
      then have "u - l \<le> 0.001 \<or> cap \<le> 0" by simp
      from bisect_Fin_stop[OF this, of f tg] assms(1)
      have "x = (l + u) / 2" unfolding fin(1) by simp
      with False show ?thesis by simp
    qed
  qed
qed

lemma wetBulbTemperature_lower:
  "wetBulbTemperature (Fin td) w p = Fin x \<Longrightarrow> min (- 50) td \<le> x"
  unfolding wetBulbTemperature_def wetBulb_loop_def Let_def
  by (rule midpoint_bisect_lower[OF _ wet_bulb_low_cases])

lemma wetBulbTemperature_example: "wetBulbTemperature (Fin 20) w p \<noteq> Fin (- 60)"
  using wetBulbTemperature_lower[of 20 w p "- 60"] by auto


text \<open>What each pair solver stores as \<^verbatim>\<open>Twb\<close>.\<close>

lemma solver_Twb:
  "solveFromTdbRH a b p = Inr s0 \<Longrightarrow> Twb s0 = wetBulbTemperature (Tdb s0) (W s0) p"
  "solveFromTdbW a b p = Inr s0 \<Longrightarrow> Twb s0 = wetBulbTemperature (Tdb s0) (W s0) p"
  "solveFromTdbPv a b p = Inr s0 \<Longrightarrow> Twb s0 = wetBulbTemperature (Tdb s0) (W s0) p"
  "Twb (solveFromTdbH a b p)
     = wetBulbTemperature (Tdb (solveFromTdbH a b p)) (W (solveFromTdbH a b p)) p"
  "Twb (solveFromWH a b p)
     = wetBulbTemperature (Tdb (solveFromWH a b p)) (W (solveFromWH a b p)) p"
  "Twb (solveFromRHW a b p)
     = wetBulbTemperature (Tdb (solveFromRHW a b p)) (W (solveFromRHW a b p)) p"
  "solveFromTdbTwb a b p = Inr s0 \<Longrightarrow> Twb s0 = b"
  by (auto simp: solveFromTdbRH_def solveFromTdbW_def solveFromTdbPv_def solveFromTdbH_def
      solveFromWH_def solveFromRHW_def solveFromTdbTwb_def Let_def split: if_splits)

lemma solveState_Inr:
  assumes "solveState v1 (Some x) v2 (Some y) p m = Inr s"
  obtains s0 where "dispatch v1 x v2 y p = Inr s0" "s = resolve_flows v1 x v2 y p m s0"
  using assms unfolding solveState_Some
  by (cases "dispatch v1 x v2 y p") (auto split: if_splits)

lemma solveState_tdb_twb:
  "solveState ''tdb'' (Some x) ''twb'' (Some y) p m
     = map_sum id (resolve_flows ''tdb'' x ''twb'' y p m) (solveFromTdbTwb x y p)"
  "solveState ''twb'' (Some y) ''tdb'' (Some x) p m
     = map_sum id (resolve_flows ''twb'' y ''tdb'' x p m) (solveFromTdbTwb x y p)"
  by (simp_all add: solveState_Some dispatch_cases is_pair_def)

lemma twb_example_state:
  "solveState ''tdb'' (Some (Fin 20)) ''twb'' (Some (Fin (- 60))) (Fin 101325) (Fin 1)
     = Inr (resolve_flows ''tdb'' (Fin 20) ''twb'' (Fin (- 60)) (Fin 101325) (Fin 1)
         (projr (solveFromTdbTwb (Fin 20) (Fin (- 60)) (Fin 101325))))"
  "Tdb (projr (solveFromTdbTwb (Fin 20) (Fin (- 60)) (Fin 101325))) = Fin 20"
  "Twb (projr (solveFromTdbTwb (Fin 20) (Fin (- 60)) (Fin 101325))) = Fin (- 60)"
  by (simp_all add: solveState_tdb_twb solveFromTdbTwb_def Let_def)

text \<open>A lower bound on the saturation pressure at 150 degrees.\<close>

lemma exp_quarter: "(5 / 4 :: real) \<le> exp (1 / 4)"
  using exp_ge_add_one_self[of "1 / 4 :: real"] by simp

lemma exp_13_2: "(330 :: real) \<le> exp (13 / 2)"
proof -
  have "exp (13 / 2 :: real) = exp (of_nat 26 * (1 / 4))" by simp
  also have "\<dots> = exp (1 / 4 :: real) ^ 26" by (rule exp_of_nat_mult)
  finally have e: "exp (13 / 2 :: real) = exp (1 / 4) ^ 26" .
  have "(5 / 4 :: real) ^ 26 \<le> exp (1 / 4) ^ 26"
    by (rule power_mono[OF exp_quarter]) simp
  moreover have "(330 :: real) \<le> (5 / 4) ^ 26" by (simp add: power_divide)
  ultimately show ?thesis unfolding e by linarith
qed

lemma sat150_bound: "(200000 :: real) \<le> 611.2 * exp (17.27 * 150 / (237.7 + 150))"
proof -
  have "(13 / 2 :: real) \<le> 17.27 * 150 / (237.7 + 150)" by simp
  then have "exp (13 / 2 :: real) \<le> exp (17.27 * 150 / (237.7 + 150))" by simp
  with exp_13_2 have "330 \<le> exp (17.27 * 150 / (237.7 + 150) :: real)" by linarith
  then show ?thesis by simp
qed

lemma sat150: "\<exists>ps. saturationVaporPressure (Fin 150) = Fin ps \<and> 200000 \<le> ps"
proof -
  have "saturationVaporPressure (Fin 150) = Fin (611.2 * exp (17.27 * 150 / (237.7 + 150)))"
    by (simp add: saturationVaporPressure_def)
  with sat150_bound show ?thesis by blast
qed

lemma solveState_tdb_rh:
  "solveState ''tdb'' (Some x) ''rh'' (Some y) p m
     = map_sum id (resolve_flows ''tdb'' x ''rh'' y p m) (solveFromTdbRH x y p)"
  by (simp add: solveState_Some dispatch_cases is_pair_def)

lemma solveState_tdb_pv:
  "solveState ''tdb'' (Some x) ''pv'' (Some y) p m
     = map_sum id (resolve_flows ''tdb'' x ''pv'' y p m) (solveFromTdbPv x y p)"
  by (simp add: solveState_Some dispatch_cases is_pair_def)

lemma solveState_rh_w:
  "solveState ''rh'' (Some x) ''w'' (Some y) p m
     = Inr (resolve_flows ''rh'' x ''w'' y p m (solveFromRHW x y p))"
  by (simp add: solveState_Some dispatch_cases is_pair_def)

lemma humidityRatio_PInf: "js_ge pv p \<Longrightarrow> humidityRatioFromVaporPressure pv p = PInf"
  by (simp add: humidityRatioFromVaporPressure_def)

lemma sat_nonpos:
  assumes "- 51 \<le> t" "t \<le> 0"
  shows "\<exists>ps. saturationVaporPressure (Fin t) = Fin ps \<and> 0 < ps \<and> ps \<le> 611.2"
proof -
  have d: "0 < 237.7 + t" using assms(1) by simp
  then have eq: "saturationVaporPressure (Fin t) = Fin (611.2 * exp (17.27 * t / (237.7 + t)))"
    by (simp add: saturationVaporPressure_def)
  have "17.27 * t / (237.7 + t) \<le> 0"
    using d assms(2) by (simp add: divide_nonpos_pos mult_nonneg_nonpos)
  then have "exp (17.27 * t / (237.7 + t)) \<le> 1" by simp
  then have "611.2 * exp (17.27 * t / (237.7 + t)) \<le> 611.2" by simp
  moreover have "0 < 611.2 * exp (17.27 * t / (237.7 + t))" by simp
  ultimately show ?thesis using eq by blast
qed

lemma solveFromWH_RH:
  "RH (solveFromWH w hv p)
     = js_div (js_mul (Fin 100) (vaporPressureFromHumidityRatio w p))
         (saturationVaporPressure (midpoint_of (wh_loop w hv)))"
  by (simp add: solveFromWH_def Let_def)

text \<open>
  The humidity ratio computed from a relative humidity within its range is never
  negative: the saturation pressure is a non-negative number or \<^verbatim>\<open>NaN\<close>, so is the
  vapour pressure, and \<^verbatim>\<open>humidityRatioFromVaporPressure\<close> returns \<^verbatim>\<open>Infinity\<close>
  where the quotient would be negative. The test \<^verbatim>\<open>W < 0\<close> of
  \<^verbatim>\<open>solveFromTdbRH\<close> therefore never fires.
\<close>

lemma saturationVaporPressure_cases:
  "saturationVaporPressure t = NaN \<or> (\<exists>x. 0 \<le> x \<and> saturationVaporPressure t = Fin x)"
proof (cases t)
  case (Fin x1)
  show ?thesis
  proof (cases "237.7 + x1 = 0")
    case True
    then have "saturationVaporPressure t = Fin 0"
      unfolding Fin by (simp add: saturationVaporPressure_def signed_inf_def)
    then show ?thesis by simp
  next
    case False
    then have "saturationVaporPressure t = Fin (611.2 * exp (17.27 * x1 / (237.7 + x1)))"
      unfolding Fin by (simp add: saturationVaporPressure_def)
    moreover have "(0::real) \<le> 611.2 * exp (17.27 * x1 / (237.7 + x1))" by simp
    ultimately show ?thesis by blast
  qed
qed (simp_all add: saturationVaporPressure_def signed_inf_def)

lemma humidityRatio_not_negative:
  assumes "pv = NaN \<or> (\<exists>x. 0 \<le> x \<and> pv = Fin x)"
  shows "\<not> js_lt (humidityRatioFromVaporPressure pv p) (Fin 0)"
proof (cases "pv = NaN")
  case True
  then show ?thesis by (cases p) (simp_all add: humidityRatioFromVaporPressure_def K_W_def)
next
  case False
  with assms obtain x where x: "0 \<le> x" "pv = Fin x" by blast
  show ?thesis
  proof (cases p)
    case (Fin q)
    show ?thesis
    proof (cases "q \<le> x")
      case True
      then show ?thesis unfolding x Fin by (simp add: humidityRatioFromVaporPressure_def)
    next
      case False
      then have "0 \<le> 0.622 * x / (q - x)" using x(1) by simp
      with False show ?thesis unfolding x Fin
        by (simp add: humidityRatioFromVaporPressure_def K_W_def del: divide_nonneg_nonneg)
    qed
  qed (simp_all add: x humidityRatioFromVaporPressure_def K_W_def js_sub_def)
qed

lemma rh_fraction_cases:
  assumes "\<not> js_lt rh (Fin 0)" "\<not> js_gt rh (Fin 100)"
    and "ps = NaN \<or> (\<exists>x. 0 \<le> x \<and> ps = Fin x)"
  shows "js_mul (js_div rh (Fin 100)) ps = NaN
         \<or> (\<exists>x. 0 \<le> x \<and> js_mul (js_div rh (Fin 100)) ps = Fin x)"
proof (cases "ps = NaN")
  case True
  then show ?thesis by (cases rh) (simp_all add: signed_inf_def)
next
  case False
  with assms(3) obtain x where x: "0 \<le> x" "ps = Fin x" by blast
  show ?thesis
  proof (cases rh)
    case (Fin r)
    with assms(1) have "0 \<le> r" by simp
    with x(1) have "0 \<le> r / 100 * x" by simp
    moreover have "js_mul (js_div rh (Fin 100)) ps = Fin (r / 100 * x)"
      unfolding Fin x by simp
    ultimately show ?thesis by blast
  next
    case PInf with assms(2) show ?thesis by (simp add: js_gt_def)
  next
    case NInf with assms(1) show ?thesis by simp
  next
    case NaN then show ?thesis by simp
  qed
qed

lemma solveFromTdbRH_guard_dead: "solveFromTdbRH tdb rh p \<noteq> Inl ImpossibleState"
proof (cases "js_lt rh (Fin 0) \<or> js_gt rh (Fin 100)")
  case True
  then show ?thesis by (simp add: solveFromTdbRH_def)
next
  case False
  then have r: "\<not> js_lt rh (Fin 0)" "\<not> js_gt rh (Fin 100)" by simp_all
  from rh_fraction_cases[OF r saturationVaporPressure_cases]
  have "\<not> js_lt (humidityRatioFromVaporPressure
            (js_mul (js_div rh (Fin 100)) (saturationVaporPressure tdb)) p) (Fin 0)"
    by (rule humidityRatio_not_negative)
  then show ?thesis by (simp add: solveFromTdbRH_def Let_def)
qed

text \<open>What the properties derived from an infinite humidity ratio are.\<close>

lemma enthalpy_PInf: "0 < 2501 + 1.86 * t \<Longrightarrow> enthalpy (Fin t) PInf = PInf"
  by (simp add: enthalpy_def C_DA_def H_FG_0_def H_FG_T_def signed_inf_def)

lemma density_PInf: "density t PInf p = NaN"
  by (cases t; cases p) (simp_all add: density_def R_DA_def signed_inf_def)

lemma wetBulbTemperature_PInf: "wetBulbTemperature (Fin t) PInf (Fin q) = NaN"
proof -
  have pv: "vaporPressureFromHumidityRatio PInf (Fin q) = NaN"
    by (simp add: vaporPressureFromHumidityRatio_def K_W_def signed_inf_def)
  have lo: "js_max (js_sub (temperatureFromSaturationPressure NaN) (Fin 5)) (Fin (- 50)) = NaN"
    by (simp add: temperatureFromSaturationPressure_def js_sub_def)
  have "\<not> (js_gt (js_sub (Fin t) NaN) (Fin 0.001) \<and> (0::nat) < 50)"
    by (simp add: js_sub_def js_gt_def)
  from bisect_stop[OF this]
  show ?thesis
    by (simp add: wetBulbTemperature_def wetBulb_loop_def Let_def pv lo midpoint_of_def)
qed

section \<open>Claims about the fields of a returned state\<close>

text \<open>
  Claim C2, as amended. Every state returned for a pair other than dry-bulb with
  wet-bulb has as \<^verbatim>\<open>Twb\<close> the value of \<^verbatim>\<open>wetBulbTemperature\<close> at its own
  \<^verbatim>\<open>Tdb\<close>, \<^verbatim>\<open>W\<close> and \<^verbatim>\<open>P_total\<close>; for dry-bulb with wet-bulb, in either
  order, \<^verbatim>\<open>Twb\<close> is the input value as given.
\<close>

theorem C2_wet_bulb_field:
  "(solveState v1 (Some x) v2 (Some y) p m = Inr s \<and> \<not> is_pair v1 v2 ''tdb'' ''twb'' \<longrightarrow>
      Twb s = wetBulbTemperature (Tdb s) (W s) (P_total s))
   \<and> (solveState ''tdb'' (Some x) ''twb'' (Some y) p m = Inr s \<longrightarrow> Twb s = y)
   \<and> (solveState ''twb'' (Some y) ''tdb'' (Some x) p m = Inr s \<longrightarrow> Twb s = y)"
proof (intro conjI impI)
  assume a: "solveState v1 (Some x) v2 (Some y) p m = Inr s \<and> \<not> is_pair v1 v2 ''tdb'' ''twb''"
  then obtain s0 where d: "dispatch v1 x v2 y p = Inr s0"
    and s: "s = resolve_flows v1 x v2 y p m s0"
    by (auto elim: solveState_Inr)
  from d a have "Twb s0 = wetBulbTemperature (Tdb s0) (W s0) p"
    unfolding dispatch_cases by (auto split: if_splits simp: solver_Twb)
  then show "Twb s = wetBulbTemperature (Tdb s) (W s) (P_total s)"
    unfolding s by simp
next
  assume "solveState ''tdb'' (Some x) ''twb'' (Some y) p m = Inr s"
  then show "Twb s = y"
    unfolding solveState_tdb_twb by (cases "solveFromTdbTwb x y p") (auto simp: solver_Twb)
next
  assume "solveState ''twb'' (Some y) ''tdb'' (Some x) p m = Inr s"
  then show "Twb s = y"
    unfolding solveState_tdb_twb by (cases "solveFromTdbTwb x y p") (auto simp: solver_Twb)
qed

text \<open>Both parts of claim C2 as amended, at concrete inputs.\<close>

theorem C2_wet_bulb_field_witness:
  "(\<exists>s. solveState ''tdb'' (Some (Fin 0)) ''rh'' (Some (Fin 50)) (Fin 101325) (Fin 1) = Inr s
       \<and> Twb s = wetBulbTemperature (Tdb s) (W s) (P_total s))
   \<and> (\<exists>s. solveState ''tdb'' (Some (Fin 20)) ''twb'' (Some (Fin (- 60))) (Fin 101325) (Fin 1) = Inr s
       \<and> Twb s = Fin (- 60))
   \<and> (\<exists>s. solveState ''twb'' (Some (Fin (- 60))) ''tdb'' (Some (Fin 20)) (Fin 101325) (Fin 1) = Inr s
       \<and> Twb s = Fin (- 60))"
proof -
  have "\<exists>s. solveState ''tdb'' (Some (Fin 0)) ''rh'' (Some (Fin 50)) (Fin 101325) (Fin 1) = Inr s"
    by (simp add: solveState_Some dispatch_cases is_pair_def solveFromTdbRH_def sat0
        humidityRatioFromVaporPressure_def K_W_def Let_def)
  then obtain s1 where
    s1: "solveState ''tdb'' (Some (Fin 0)) ''rh'' (Some (Fin 50)) (Fin 101325) (Fin 1) = Inr s1" ..
  have n: "\<not> is_pair ''tdb'' ''rh'' ''tdb'' ''twb''" by (simp add: is_pair_def)
  have "\<exists>s. solveState ''tdb'' (Some (Fin 20)) ''twb'' (Some (Fin (- 60))) (Fin 101325) (Fin 1) = Inr s"
    by (simp add: solveState_tdb_twb solveFromTdbTwb_def Let_def)
  then obtain s2 where
    s2: "solveState ''tdb'' (Some (Fin 20)) ''twb'' (Some (Fin (- 60))) (Fin 101325) (Fin 1) = Inr s2" ..
  have "\<exists>s. solveState ''twb'' (Some (Fin (- 60))) ''tdb'' (Some (Fin 20)) (Fin 101325) (Fin 1) = Inr s"
    by (simp add: solveState_tdb_twb solveFromTdbTwb_def Let_def)
  then obtain s3 where
    s3: "solveState ''twb'' (Some (Fin (- 60))) ''tdb'' (Some (Fin 20)) (Fin 101325) (Fin 1) = Inr s3" ..
  from C2_wet_bulb_field[where ?v1.0 = "''tdb''" and ?v2.0 = "''rh''" and x = "Fin 0"
      and y = "Fin 50" and p = "Fin 101325" and m = "Fin 1" and s = s1,
      THEN conjunct1, THEN mp, OF conjI[OF s1 n]] s1
  have a: "\<exists>s. solveState ''tdb'' (Some (Fin 0)) ''rh'' (Some (Fin 50)) (Fin 101325) (Fin 1) = Inr s
       \<and> Twb s = wetBulbTemperature (Tdb s) (W s) (P_total s)" by blast
  from C2_wet_bulb_field[where x = "Fin 20" and y = "Fin (- 60)" and p = "Fin 101325"
      and m = "Fin 1" and s = s2, THEN conjunct2, THEN conjunct1, THEN mp, OF s2] s2
  have b: "\<exists>s. solveState ''tdb'' (Some (Fin 20)) ''twb'' (Some (Fin (- 60))) (Fin 101325) (Fin 1) = Inr s
       \<and> Twb s = Fin (- 60)" by blast
  from C2_wet_bulb_field[where x = "Fin 20" and y = "Fin (- 60)" and p = "Fin 101325"
      and m = "Fin 1" and s = s3, THEN conjunct2, THEN conjunct2, THEN mp, OF s3] s3
  have c: "\<exists>s. solveState ''twb'' (Some (Fin (- 60))) ''tdb'' (Some (Fin 20)) (Fin 101325) (Fin 1) = Inr s
       \<and> Twb s = Fin (- 60)" by blast
  from a b c show ?thesis by (intro conjI)
qed

text \<open>
  Claim C2 as stated fails: for dry-bulb 20 with wet-bulb -60 the call succeeds and
  returns \<^verbatim>\<open>Twb\<close> = -60, the input, while \<^verbatim>\<open>wetBulbTemperature\<close> at the
  returned dry-bulb temperature, humidity ratio and pressure is not -60 (its search
  bracket starts at -50 or above).
\<close>

theorem C2_wet_bulb_input_counterexample:
  "\<not> isl (solveState ''tdb'' (Some (Fin 20)) ''twb'' (Some (Fin (- 60))) (Fin 101325) (Fin 1))
   \<and> Tdb (projr (solveState ''tdb'' (Some (Fin 20)) ''twb'' (Some (Fin (- 60))) (Fin 101325) (Fin 1)))
       = Fin 20
   \<and> P_total (projr (solveState ''tdb'' (Some (Fin 20)) ''twb'' (Some (Fin (- 60))) (Fin 101325) (Fin 1)))
       = Fin 101325
   \<and> Twb (projr (solveState ''tdb'' (Some (Fin 20)) ''twb'' (Some (Fin (- 60))) (Fin 101325) (Fin 1)))
       = Fin (- 60)
   \<and> wetBulbTemperature (Fin 20)
        (W (projr (solveState ''tdb'' (Some (Fin 20)) ''twb'' (Some (Fin (- 60))) (Fin 101325) (Fin 1))))
        (Fin 101325) \<noteq> Fin (- 60)"
  unfolding twb_example_state(1) by (simp add: twb_example_state(2,3) wetBulbTemperature_example)

text \<open>
  Claim C4 at its failing input: dry-bulb 150 with relative humidity 100 at 101325 Pa
  has a saturation pressure above the total pressure, and the call returns, with no
  error, a state whose \<^verbatim>\<open>W\<close> and \<^verbatim>\<open>h\<close> are \<^verbatim>\<open>Infinity\<close> and whose
  \<^verbatim>\<open>Twb\<close> and \<^verbatim>\<open>rho\<close> are \<^verbatim>\<open>NaN\<close>. The test \<^verbatim>\<open>W < 0\<close> by which
  \<^verbatim>\<open>solveFromTdbRH\<close> means to raise its impossible-state error fires on no input at
  all. Dry-bulb 150 with a vapour pressure equal to the total pressure is returned
  with an infinite \<^verbatim>\<open>W\<close> as well.
\<close>

theorem C4_infinite_state_returned:
  "\<not> isl (solveState ''tdb'' (Some (Fin 150)) ''rh'' (Some (Fin 100)) (Fin 101325) (Fin 1))
   \<and> W (projr (solveState ''tdb'' (Some (Fin 150)) ''rh'' (Some (Fin 100)) (Fin 101325) (Fin 1)))
       = PInf
   \<and> h (projr (solveState ''tdb'' (Some (Fin 150)) ''rh'' (Some (Fin 100)) (Fin 101325) (Fin 1)))
       = PInf
   \<and> Twb (projr (solveState ''tdb'' (Some (Fin 150)) ''rh'' (Some (Fin 100)) (Fin 101325) (Fin 1)))
       = NaN
   \<and> rho (projr (solveState ''tdb'' (Some (Fin 150)) ''rh'' (Some (Fin 100)) (Fin 101325) (Fin 1)))
       = NaN
   \<and> (\<forall>tdb rh p. solveFromTdbRH tdb rh p \<noteq> Inl ImpossibleState)
   \<and> \<not> isl (solveState ''tdb'' (Some (Fin 150)) ''pv'' (Some (Fin 101325)) (Fin 101325) (Fin 1))
   \<and> W (projr (solveState ''tdb'' (Some (Fin 150)) ''pv'' (Some (Fin 101325)) (Fin 101325) (Fin 1)))
       = PInf"
proof -
  from sat150 obtain ps where ps: "saturationVaporPressure (Fin 150) = Fin ps" "200000 \<le> ps"
    by blast
  then have w: "humidityRatioFromVaporPressure (js_mul (js_div (Fin 100) (Fin 100)) (Fin ps))
      (Fin 101325) = PInf"
    by (intro humidityRatio_PInf) simp
  have e: "enthalpy (Fin 150) PInf = PInf" by (rule enthalpy_PInf) simp
  have s: "solveFromTdbRH (Fin 150) (Fin 100) (Fin 101325)
      = Inr \<lparr>Tdb = Fin 150, W = PInf, RH = Fin 100, h = PInf, Twb = NaN,
             T_dew = temperatureFromSaturationPressure (js_mul (js_div (Fin 100) (Fin 100)) (Fin ps)),
             Pv = js_mul (js_div (Fin 100) (Fin 100)) (Fin ps), rho = NaN, P_total = Fin 101325\<rparr>"
    unfolding solveFromTdbRH_def Let_def ps(1) w e wetBulbTemperature_PInf density_PInf
    by simp
  have w2: "humidityRatioFromVaporPressure (Fin 101325) (Fin 101325) = PInf"
    by (intro humidityRatio_PInf) simp
  have "100 * 101325 / ps \<le> 100 * 101325 / 200000"
    using ps(2) by (intro divide_left_mono) simp_all
  then have "100 * 101325 / ps \<le> 100.5" by simp
  then have r: "\<not> js_gt (js_div (js_mul (Fin 100) (Fin 101325)) (Fin ps)) (Fin 100.5)"
    using ps(2) by simp
  have s2: "\<exists>s'. solveFromTdbPv (Fin 150) (Fin 101325) (Fin 101325) = Inr s' \<and> W s' = PInf"
    unfolding solveFromTdbPv_def Let_def ps(1) w2 using r by simp
  then obtain s' where s': "solveFromTdbPv (Fin 150) (Fin 101325) (Fin 101325) = Inr s'"
    "W s' = PInf" by blast
  show ?thesis
    unfolding solveState_tdb_rh solveState_tdb_pv s s'(1)
    by (simp add: solveFromTdbRH_guard_dead s'(2))
qed

text \<open>
  Claim C3 at its failing input: relative humidity 150 with humidity ratio 0.01 is
  accepted and returned as \<^verbatim>\<open>RH\<close> = 150, although the same relative humidity
  with a dry-bulb temperature is rejected by the range check of
  \<^verbatim>\<open>solveFromTdbRH\<close>, which \<^verbatim>\<open>solveFromRHW\<close> lacks.
\<close>

theorem C3_rh_input_unchecked_with_w:
  "\<not> isl (solveState ''rh'' (Some (Fin 150)) ''w'' (Some (Fin 0.01)) (Fin 101325) (Fin 1))
   \<and> RH (projr (solveState ''rh'' (Some (Fin 150)) ''w'' (Some (Fin 0.01)) (Fin 101325) (Fin 1)))
       = Fin 150
   \<and> solveState ''tdb'' (Some (Fin 20)) ''rh'' (Some (Fin 150)) (Fin 101325) (Fin 1)
       = Inl RHOutOfRange"
  unfolding solveState_rh_w solveState_tdb_rh
  by (simp add: solveFromRHW_def solveFromTdbRH_def Let_def)

text \<open>
  Claim C1 at its failing inputs: humidity ratio 0.02 with enthalpy 20 resolves to a
  dry-bulb temperature below zero and is returned with a relative humidity above
  100.5, neither rejected nor clamped; relative humidity 100.3 with humidity ratio
  0.01 is returned with \<^verbatim>\<open>RH\<close> = 100.3, not 100.
\<close>

theorem C1_supersaturated_state_returned:
  "\<not> isl (solveState ''w'' (Some (Fin 0.02)) ''h'' (Some (Fin 20)) (Fin 101325) (Fin 1))
   \<and> js_gt (RH (projr (solveState ''w'' (Some (Fin 0.02)) ''h'' (Some (Fin 20)) (Fin 101325) (Fin 1))))
       (Fin 100.5)
   \<and> \<not> isl (solveState ''rh'' (Some (Fin 100.3)) ''w'' (Some (Fin 0.01)) (Fin 101325) (Fin 1))
   \<and> RH (projr (solveState ''rh'' (Some (Fin 100.3)) ''w'' (Some (Fin 0.01)) (Fin 101325) (Fin 1)))
       = Fin 100.3"
proof -
  have w: "(0::real) \<le> 0.02" by simp
  have lo: "1.006 * (- 50) + 0.02 * (2501 + 1.86 * (- 50)) \<le> (20::real)" by simp
  have hi: "(20::real) \<le> 1.006 * 100 + 0.02 * (2501 + 1.86 * 100)" by simp
  from wh_converges[OF w lo hi]
  obtain t r where c: "midpoint_of (wh_loop (Fin 0.02) (Fin 20)) = Fin t"
    "- 50 \<le> r" "1.006 * r + 0.02 * (2501 + 1.86 * r) = 20" "\<bar>t - r\<bar> \<le> 75 / 16384"
    by blast
  from c(3) have "r \<le> - 28" by simp argo
  with c(2,4) have t: "- 51 \<le> t" "t \<le> 0" by argo+
  from sat_nonpos[OF t] obtain ps
    where ps: "saturationVaporPressure (Fin t) = Fin ps" "0 < ps" "ps \<le> 611.2" by blast
  have pv: "vaporPressureFromHumidityRatio (Fin 0.02) (Fin 101325) = Fin (101325 * 0.02 / 0.642)"
    by (simp add: vaporPressureFromHumidityRatio_def K_W_def)
  have "100.5 * ps < 100 * (101325 * 0.02 / 0.642)" using ps(3) by simp
  then have "100.5 < 100 * (101325 * 0.02 / 0.642) / ps"
    using ps(2) by (simp add: pos_less_divide_eq)
  then have "js_gt (RH (solveFromWH (Fin 0.02) (Fin 20) (Fin 101325))) (Fin 100.5)"
    unfolding solveFromWH_RH c(1) ps(1) pv using ps(2) by simp
  then show ?thesis
    unfolding solveState_w_h solveState_rh_w by (simp add: solveFromRHW_def Let_def)
qed

end
